theory Spec2Isabelle
  imports Complex_Main "HOL-Library.Char_ord" "HOL-Library.List_Lexorder"
    "HOL-Library.Product_Lexorder"
begin

section \<open>Data model\<close>

text \<open>
  The program of \<^verbatim>\<open>src/app.py\<close> is one function, \<^verbatim>\<open>main\<close>, that threads a pandas
  DataFrame through a fixed sequence of stages. A DataFrame is modelled as its list of
  column names and its list of rows, a row being the list of its cells in column order.

  A cell is what \<^verbatim>\<open>pd.read_csv\<close> leaves in it: \<open>Null\<close> for a missing value (NaN),
  \<open>Num q\<close> for a number and \<open>Str s\<close> for a string. In the three columns that the code
  coerces, where a column with some unreadable text holds its numbers as strings too,
  \<open>Num q\<close> also stands for a string that \<^verbatim>\<open>pd.to_numeric\<close> reads as \<open>q\<close>, and \<open>Str s\<close> is a
  string that it does not read. A number is the rational value of the float64 or int64
  it stands for, and comparisons of numbers are exact. Arithmetic that rounds is not fixed here: it is a
  parameter of the aggregation, see \<open>arith\<close> below. Reading the uploads (lines 21--30) is
  left out: the model starts from the list of tables read.
\<close>

datatype cell = Null | Num rat | Str string

record dataframe =
  columns :: "string list"
  rows :: "cell list list"

text \<open>
  The seven columns the stages read, as one typed row. The text columns \<^verbatim>\<open>Keyword\<close>,
  \<^verbatim>\<open>Domain\<close> and \<^verbatim>\<open>Competitor URL\<close> hold a string or a null, as columns of strings do;
  a number in one of them, which \<^verbatim>\<open>pd.read_csv\<close> leaves only when the whole column of a
  file reads as numbers, is outside the model. \<^verbatim>\<open>Search Volume\<close>, \<^verbatim>\<open>Domain Position\<close>
  and \<^verbatim>\<open>Competitor Position\<close> hold raw cells, which the code coerces with
  \<^verbatim>\<open>pd.to_numeric(errors='coerce')\<close>. \<^verbatim>\<open>Keyword Difficulty\<close> holds its raw cell too: the
  code never coerces it, and its mean raises on a string.
  Columns beyond these seven are carried by pandas and never read; they are dropped here.
\<close>

record row =
  Keyword :: "string option"
  Search_Volume :: cell
  Keyword_Difficulty :: cell
  Domain :: "string option"
  Domain_Position :: cell
  Competitor_URL :: "string option"
  Competitor_Position :: cell

record final_row =
  out_Competitor_URL :: string
  out_Topic :: "string option"
  out_Keywords :: string
  out_Search_Volume :: rat
  out_Keyword_Difficulty :: "rat option"
  out_Domains_Info :: string
  out_Creation_or_Optimization :: string

text \<open>
  Every way \<^verbatim>\<open>main\<close> ends without a final table: no file uploaded (line 19), a required
  column missing (lines 46--48), \<^verbatim>\<open>Competitor Position\<close> missing (lines 77--79), and the
  three exceptions the aggregation loop can raise: \<^verbatim>\<open>idxmax\<close> on a group whose
  \<^verbatim>\<open>Search Volume\<close> is null in every row (line 115), \<^verbatim>\<open>", ".join\<close> on a list that
  holds a null keyword (line 120), and \<^verbatim>\<open>mean\<close> on a group that holds a string in
  \<^verbatim>\<open>Keyword Difficulty\<close> (line 126, pandas 2). \<open>KeyError\<close> is what reading a column by
  name raises on a table without that column; \<^verbatim>\<open>main\<close> checks the columns first and
  never raises it, the aggregation run on another table can.
\<close>

datatype error =
    NoFiles
  | MissingColumns "string list"
  | MissingCompetitorPosition
  | IdxmaxAllNull
  | JoinTypeError
  | MeanTypeError
  | KeyError string

section \<open>Cells and their comparisons\<close>

definition num_of :: "cell \<Rightarrow> rat option" where
  "num_of c = (case c of Num q \<Rightarrow> Some q | _ \<Rightarrow> None)"

definition is_text :: "cell \<Rightarrow> bool" where
  "is_text c = (case c of Str s \<Rightarrow> True | _ \<Rightarrow> False)"

definition text_of :: "cell \<Rightarrow> string option" where
  "text_of c = (case c of Str s \<Rightarrow> Some s | _ \<Rightarrow> None)"

text \<open>\<^verbatim>\<open>pd.to_numeric(x, errors='coerce')\<close>: what does not read as a number becomes NaN.\<close>

definition to_numeric :: "cell \<Rightarrow> cell" where
  "to_numeric c = (case c of Num q \<Rightarrow> Num q | _ \<Rightarrow> Null)"

text \<open>
  Elementwise comparisons of pandas: \<^verbatim>\<open>a > b\<close> is false when an operand is NaN,
  \<^verbatim>\<open>a != 0\<close> is true for NaN, and \<^verbatim>\<open>a == b\<close> on text is false when an operand is NaN.
\<close>

definition cell_gt :: "cell \<Rightarrow> cell \<Rightarrow> bool" where
  "cell_gt a b = (case (num_of a, num_of b) of (Some x, Some y) \<Rightarrow> y < x | _ \<Rightarrow> False)"

definition cell_ne_zero :: "cell \<Rightarrow> bool" where
  "cell_ne_zero a = (case num_of a of Some x \<Rightarrow> x \<noteq> 0 | None \<Rightarrow> True)"

definition text_eq :: "string option \<Rightarrow> string option \<Rightarrow> bool" where
  "text_eq a b = (case (a, b) of (Some x, Some y) \<Rightarrow> x = y | _ \<Rightarrow> False)"

section \<open>Step 2: merging the uploaded tables\<close>

text \<open>Keeps the first occurrence of every element, in order.\<close>

fun unique_seen :: "'a list \<Rightarrow> 'a list \<Rightarrow> 'a list" where
  "unique_seen seen [] = []"
| "unique_seen seen (x # xs) =
     (if x \<in> set seen then unique_seen seen xs else x # unique_seen (x # seen) xs)"

definition unique :: "'a list \<Rightarrow> 'a list" where
  "unique xs = unique_seen [] xs"

text \<open>The cell of a row under a column name; NaN when the table has no such column.\<close>

definition cell_at :: "string list \<Rightarrow> cell list \<Rightarrow> string \<Rightarrow> cell" where
  "cell_at cols r c = (case map_of (zip cols r) c of Some v \<Rightarrow> v | None \<Rightarrow> Null)"

definition reindex :: "string list \<Rightarrow> dataframe \<Rightarrow> cell list list" where
  "reindex cols df = map (\<lambda>r. map (cell_at (columns df) r) cols) (rows df)"

text \<open>
  \<^verbatim>\<open>pd.concat(csv_list, ignore_index=True)\<close> (line 35): the columns are the union of the
  tables' columns in order of first appearance, the rows are the tables' rows in order,
  each laid out on the merged columns.
\<close>

definition concat_frames :: "dataframe list \<Rightarrow> dataframe" where
  "concat_frames dfs =
     (let cols = unique (concat (map columns dfs))
      in \<lparr>columns = cols, rows = concat (map (reindex cols) dfs)\<rparr>)"

section \<open>Validation gates\<close>

definition required_columns :: "string list" where
  "required_columns = [''Keyword'', ''Search Volume'', ''Keyword Difficulty'', ''Domain'',
     ''Domain Position'', ''Competitor URL'']"

definition missing_columns :: "string list \<Rightarrow> string list" where
  "missing_columns cols = filter (\<lambda>col. col \<notin> set cols) required_columns"

text \<open>
  The typed row of a table row. A text column is a column of strings and nulls; a
  numeric column keeps its raw cells.
\<close>

definition row_of :: "string list \<Rightarrow> cell list \<Rightarrow> row" where
  "row_of cols r =
     \<lparr>Keyword = text_of (cell_at cols r ''Keyword''),
      Search_Volume = cell_at cols r ''Search Volume'',
      Keyword_Difficulty = cell_at cols r ''Keyword Difficulty'',
      Domain = text_of (cell_at cols r ''Domain''),
      Domain_Position = cell_at cols r ''Domain Position'',
      Competitor_URL = text_of (cell_at cols r ''Competitor URL''),
      Competitor_Position = cell_at cols r ''Competitor Position''\<rparr>"

section \<open>Step 3: removing duplicates\<close>

text \<open>
  \<^verbatim>\<open>sort_values\<close> puts NaN last (\<^verbatim>\<open>na_position='last'\<close>): a text key is ordered as a
  pair, nulls marked \<open>True\<close>, after every string.
\<close>

definition na_last :: "string option \<Rightarrow> bool \<times> string" where
  "na_last v = (case v of None \<Rightarrow> (True, []) | Some s \<Rightarrow> (False, s))"

definition domain_keyword_key :: "row \<Rightarrow> (bool \<times> string) \<times> (bool \<times> string)" where
  "domain_keyword_key r = (na_last (Domain r), na_last (Keyword r))"

text \<open>
  \<^verbatim>\<open>sort_values(by=['Domain', 'Keyword'], ascending=[True, True])\<close> (line 55): with
  several keys pandas sorts lexicographically with a stable sort.
\<close>

definition sort_domain_keyword :: "row list \<Rightarrow> row list" where
  "sort_domain_keyword T = sort_key domain_keyword_key T"

text \<open>
  \<^verbatim>\<open>drop_duplicates(subset=[k], keep='first')\<close>: one scan that remembers the keys seen.
  Nulls count as equal to each other, as in pandas.
\<close>

fun drop_seen :: "('a \<Rightarrow> 'k) \<Rightarrow> 'k list \<Rightarrow> 'a list \<Rightarrow> 'a list" where
  "drop_seen f seen [] = []"
| "drop_seen f seen (x # xs) =
     (if f x \<in> set seen then drop_seen f seen xs else x # drop_seen f (f x # seen) xs)"

definition drop_duplicates :: "('a \<Rightarrow> 'k) \<Rightarrow> 'a list \<Rightarrow> 'a list" where
  "drop_duplicates f xs = drop_seen f [] xs"

definition deduplicate :: "row list \<Rightarrow> row list" where
  "deduplicate T = drop_duplicates Keyword (sort_domain_keyword T)"

section \<open>Step 4: sorting by search volume\<close>

definition coerce_search_volume :: "row \<Rightarrow> row" where
  "coerce_search_volume r = r\<lparr>Search_Volume := to_numeric (Search_Volume r)\<rparr>"

text \<open>
  Descending order with NaN last. The sort is taken to be stable; numpy's default kind
  guarantees that only for short arrays, and nothing proved below depends on the order
  of ties.
\<close>

definition volume_desc_key :: "row \<Rightarrow> bool \<times> rat" where
  "volume_desc_key r = (case num_of (Search_Volume r) of None \<Rightarrow> (True, 0) | Some v \<Rightarrow> (False, - v))"

definition sort_volume_desc :: "row list \<Rightarrow> row list" where
  "sort_volume_desc T = sort_key volume_desc_key T"

section \<open>Step 5: filtering on the positions\<close>

definition coerce_positions :: "row \<Rightarrow> row" where
  "coerce_positions r =
     r\<lparr>Domain_Position := to_numeric (Domain_Position r),
       Competitor_Position := to_numeric (Competitor_Position r)\<rparr>"

definition condition :: "row \<Rightarrow> bool" where
  "condition r = (cell_gt (Domain_Position r) (Competitor_Position r) \<and> cell_ne_zero (Domain_Position r))"

definition rank_filter :: "row list \<Rightarrow> row list" where
  "rank_filter T = filter (\<lambda>r. \<not> condition r) (map coerce_positions T)"

section \<open>Step 6: the final table\<close>

fun join :: "string \<Rightarrow> string list \<Rightarrow> string" where
  "join sep [] = []"
| "join sep [x] = x"
| "join sep (x # y # ys) = x @ sep @ join sep (y # ys)"

text \<open>How an f-string prints a text cell and a numeric cell; \<open>shw\<close> prints a number.\<close>

definition text_str :: "string option \<Rightarrow> string" where
  "text_str v = (case v of None \<Rightarrow> ''nan'' | Some s \<Rightarrow> s)"

definition cell_str :: "(rat \<Rightarrow> string) \<Rightarrow> cell \<Rightarrow> string" where
  "cell_str shw c = (case c of Null \<Rightarrow> ''nan'' | Num q \<Rightarrow> shw q | Str s \<Rightarrow> s)"

definition format_info :: "(rat \<Rightarrow> string) \<Rightarrow> row \<Rightarrow> string" where
  "format_info shw x =
     text_str (Keyword x) @ '' ('' @ text_str (Domain x) @ '' - '' @ cell_str shw (Domain_Position x) @ '')''"

definition domain_ranked :: "row \<Rightarrow> row list \<Rightarrow> row list" where
  "domain_ranked r group_df =
     filter (\<lambda>x. text_eq (Keyword x) (Keyword r) \<and> text_eq (Domain x) (Domain r)
                 \<and> cell_gt (Domain_Position x) (Num 0)) group_df"

definition get_domain_info :: "(rat \<Rightarrow> string) \<Rightarrow> row \<Rightarrow> row list \<Rightarrow> string" where
  "get_domain_info shw r group_df =
     (if domain_ranked r group_df \<noteq> [] then join '', '' (map (format_info shw) (domain_ranked r group_df))
      else [])"

text \<open>
  \<^verbatim>\<open>groupby('Competitor URL')\<close> (line 109): the keys are the distinct non-null values
  (\<^verbatim>\<open>dropna=True\<close>) in ascending order (\<^verbatim>\<open>sort=True\<close>); a group holds the rows of its
  key in table order.
\<close>

definition group_keys :: "('a \<Rightarrow> string option) \<Rightarrow> 'a list \<Rightarrow> string list" where
  "group_keys f T = sort (unique (List.map_filter f T))"

definition groupby :: "('a \<Rightarrow> string option) \<Rightarrow> 'a list \<Rightarrow> (string \<times> 'a list) list" where
  "groupby f T = map (\<lambda>u. (u, filter (\<lambda>r. f r = Some u) T)) (group_keys f T)"

text \<open>
  \<^verbatim>\<open>group.loc[group['Search Volume'].idxmax()]\<close> (line 115): the first row holding the
  largest non-null value; there is none when every value is null, and the lookup raises.
\<close>

fun idxmax :: "row list \<Rightarrow> row option" where
  "idxmax [] = None"
| "idxmax (r # rs) =
     (case num_of (Search_Volume r) of
        None \<Rightarrow> idxmax rs
      | Some v \<Rightarrow>
          (case idxmax rs of
             None \<Rightarrow> Some r
           | Some b \<Rightarrow> (case num_of (Search_Volume b) of
                          None \<Rightarrow> Some r
                        | Some w \<Rightarrow> if w \<le> v then Some r else Some b)))"

text \<open>\<^verbatim>\<open>", ".join(top_keywords)\<close> raises TypeError on an item that is not a string.\<close>

fun all_text :: "string option list \<Rightarrow> string list option" where
  "all_text [] = Some []"
| "all_text (None # vs) = None"
| "all_text (Some s # vs) = (case all_text vs of None \<Rightarrow> None | Some ss \<Rightarrow> Some (s # ss))"

text \<open>
  The arithmetic of lines 123--139 is float64 (or int64) arithmetic of the library, which
  rounds. It is not defined here but taken as three parameters: \<open>fsum\<close> is the sum of an
  array (\<^verbatim>\<open>values.sum()\<close>), \<open>fdiv\<close> the division of a sum by a count, \<open>fround\<close> is
  \<^verbatim>\<open>round(x, 2)\<close>.
\<close>

record arith =
  fsum :: "rat list \<Rightarrow> rat"
  fdiv :: "rat \<Rightarrow> nat \<Rightarrow> rat"
  fround :: "rat \<Rightarrow> rat"

text \<open>
  \<^verbatim>\<open>Series.sum()\<close> and \<^verbatim>\<open>Series.mean()\<close> skip NaN the way pandas does it: the array is
  summed with 0 in the place of every NaN; the mean divides that sum by the number of
  values that are not NaN, and is NaN when there is none.
\<close>

definition fill_zero :: "rat option \<Rightarrow> rat" where
  "fill_zero v = (case v of None \<Rightarrow> 0 | Some x \<Rightarrow> x)"

definition nansum :: "arith \<Rightarrow> rat option list \<Rightarrow> rat" where
  "nansum ar vs = fsum ar (map fill_zero vs)"

definition nanmean :: "arith \<Rightarrow> rat option list \<Rightarrow> rat option" where
  "nanmean ar vs =
     (let count = length (filter (\<lambda>v. v \<noteq> None) vs)
      in if count = 0 then None else Some (fdiv ar (fsum ar (map fill_zero vs)) count))"

text \<open>
  The body of the loop over the groups (lines 113--142). \<^verbatim>\<open>Search Volume\<close> and
  \<^verbatim>\<open>Domain Position\<close> are read with \<open>num_of\<close>: in the filtered table they have been
  coerced and hold numbers and nulls only. \<^verbatim>\<open>Keyword Difficulty\<close> has not: its mean
  raises when the group holds a string, and else is the mean of its numbers.
\<close>

definition summarise ::
  "(rat \<Rightarrow> string) \<Rightarrow> arith \<Rightarrow> row list \<Rightarrow> string \<Rightarrow> row list \<Rightarrow> error + final_row" where
  "summarise shw ar filtered_df competitor_url grp =
     (case idxmax grp of
        None \<Rightarrow> Inl IdxmaxAllNull
      | Some top_keyword_row \<Rightarrow>
          (case all_text (map Keyword (sort_volume_desc grp)) of
             None \<Rightarrow> Inl JoinTypeError
           | Some top_keywords \<Rightarrow>
               if \<exists>x \<in> set grp. is_text (Keyword_Difficulty x) then Inl MeanTypeError
               else
               (let domain_info = get_domain_info shw top_keyword_row filtered_df
                in Inr \<lparr>out_Competitor_URL = competitor_url,
                        out_Topic = Keyword top_keyword_row,
                        out_Keywords = join '', '' top_keywords,
                        out_Search_Volume = nansum ar (map (num_of \<circ> Search_Volume) grp),
                        out_Keyword_Difficulty =
                          map_option (fround ar)
                            (nanmean ar (map (num_of \<circ> Keyword_Difficulty) grp)),
                        out_Domains_Info = domain_info,
                        out_Creation_or_Optimization =
                          (if domain_info \<noteq> [] then ''Optimization'' else ''Creation'')\<rparr>)))"

text \<open>The loop: the first exception ends it.\<close>

fun final_rows ::
  "(rat \<Rightarrow> string) \<Rightarrow> arith \<Rightarrow> row list \<Rightarrow> (string \<times> row list) list \<Rightarrow> error + final_row list" where
  "final_rows shw ar filtered_df [] = Inr []"
| "final_rows shw ar filtered_df ((u, g) # gs) =
     (case summarise shw ar filtered_df u g of
        Inl e \<Rightarrow> Inl e
      | Inr o1 \<Rightarrow> (case final_rows shw ar filtered_df gs of
                    Inl e \<Rightarrow> Inl e
                  | Inr os \<Rightarrow> Inr (o1 # os)))"

definition aggregate :: "(rat \<Rightarrow> string) \<Rightarrow> arith \<Rightarrow> row list \<Rightarrow> error + final_row list" where
  "aggregate shw ar filtered_df =
     (case final_rows shw ar filtered_df (groupby Competitor_URL filtered_df) of
        Inl e \<Rightarrow> Inl e
      | Inr final_df \<Rightarrow> Inr (drop_duplicates out_Competitor_URL final_df))"

section \<open>The pipeline\<close>

definition main :: "(rat \<Rightarrow> string) \<Rightarrow> arith \<Rightarrow> dataframe list \<Rightarrow> error + final_row list" where
  "main shw ar csv_list =
     (if csv_list = [] then Inl NoFiles
      else
        let merged_df = concat_frames csv_list;
            missing = missing_columns (columns merged_df)
        in if missing \<noteq> [] then Inl (MissingColumns missing)
           else
             let dedup_df = deduplicate (map (row_of (columns merged_df)) (rows merged_df));
                 sorted_df = sort_volume_desc (map coerce_search_volume dedup_df)
             in if ''Competitor Position'' \<notin> set (columns merged_df) then Inl MissingCompetitorPosition
                else aggregate shw ar (rank_filter sorted_df))"

section \<open>The aggregation on a table of any columns\<close>

text \<open>
  Lines 109--147 read the columns of the table by name, \<^verbatim>\<open>main\<close> having checked before
  that they are there. Run on a table without one of them, the first read of a missing
  column raises \<^verbatim>\<open>KeyError\<close>: \<^verbatim>\<open>Competitor URL\<close> at the \<^verbatim>\<open>groupby\<close> (line 109), then, for
  the first group, \<^verbatim>\<open>Search Volume\<close> (line 115), \<^verbatim>\<open>Keyword\<close> (line 116),
  \<^verbatim>\<open>Keyword Difficulty\<close> (line 126), \<^verbatim>\<open>Domain\<close> (line 99) and \<^verbatim>\<open>Domain Position\<close>
  (line 100), with the other two exceptions of the loop at their places in between.
\<close>

definition summarise_frame ::
  "(rat \<Rightarrow> string) \<Rightarrow> arith \<Rightarrow> string list \<Rightarrow> row list \<Rightarrow> string \<Rightarrow> row list \<Rightarrow> error + final_row" where
  "summarise_frame shw ar cols filtered_df competitor_url grp =
     (if ''Search Volume'' \<notin> set cols then Inl (KeyError ''Search Volume'')
      else if idxmax grp = None then Inl IdxmaxAllNull
      else if ''Keyword'' \<notin> set cols then Inl (KeyError ''Keyword'')
      else if all_text (map Keyword (sort_volume_desc grp)) = None then Inl JoinTypeError
      else if ''Keyword Difficulty'' \<notin> set cols then Inl (KeyError ''Keyword Difficulty'')
      else if \<exists>x \<in> set grp. is_text (Keyword_Difficulty x) then Inl MeanTypeError
      else if ''Domain'' \<notin> set cols then Inl (KeyError ''Domain'')
      else if ''Domain Position'' \<notin> set cols then Inl (KeyError ''Domain Position'')
      else summarise shw ar filtered_df competitor_url grp)"

fun final_rows_frame ::
  "(rat \<Rightarrow> string) \<Rightarrow> arith \<Rightarrow> string list \<Rightarrow> row list \<Rightarrow> (string \<times> row list) list
     \<Rightarrow> error + final_row list" where
  "final_rows_frame shw ar cols filtered_df [] = Inr []"
| "final_rows_frame shw ar cols filtered_df ((u, g) # gs) =
     (case summarise_frame shw ar cols filtered_df u g of
        Inl e \<Rightarrow> Inl e
      | Inr o1 \<Rightarrow> (case final_rows_frame shw ar cols filtered_df gs of
                    Inl e \<Rightarrow> Inl e
                  | Inr os \<Rightarrow> Inr (o1 # os)))"

definition aggregate_frame :: "(rat \<Rightarrow> string) \<Rightarrow> arith \<Rightarrow> dataframe \<Rightarrow> error + final_row list" where
  "aggregate_frame shw ar df =
     (if ''Competitor URL'' \<notin> set (columns df) then Inl (KeyError ''Competitor URL'')
      else
        let filtered_df = map (row_of (columns df)) (rows df)
        in case final_rows_frame shw ar (columns df) filtered_df (groupby Competitor_URL filtered_df) of
             Inl e \<Rightarrow> Inl e
           | Inr final_df \<Rightarrow> Inr (drop_duplicates out_Competitor_URL final_df))"




section \<open>Example tables\<close>

text \<open>The two rows of the specification's example, and a row with an unreadable position.\<close>

definition seo_x :: row where
  "seo_x = \<lparr>Keyword = Some ''seo tips'', Search_Volume = Num 100, Keyword_Difficulty = Num 40,
     Domain = Some ''a.com'', Domain_Position = Num 3, Competitor_URL = Some ''x.com/blog'',
     Competitor_Position = Num 1\<rparr>"

definition seo_y :: row where
  "seo_y = \<lparr>Keyword = Some ''seo tips'', Search_Volume = Num 100, Keyword_Difficulty = Num 40,
     Domain = Some ''a.com'', Domain_Position = Num 0, Competitor_URL = Some ''y.com/blog'',
     Competitor_Position = Num 5\<rparr>"

definition seo_unread :: row where
  "seo_unread = \<lparr>Keyword = Some ''seo audit'', Search_Volume = Num 70, Keyword_Difficulty = Null,
     Domain = Some ''a.com'', Domain_Position = Str ''unranked'', Competitor_URL = Some ''x.com/blog'',
     Competitor_Position = Num 1\<rparr>"

text \<open>
  The parameters used in the examples. The printer writes a whole number as Python
  prints a float64, \<^verbatim>\<open>2.0\<close>: wherever an example prints a position, the position column
  holds a null and so is float64. The arithmetic is exact, with \<^verbatim>\<open>round(x, 2)\<close> to the
  nearest multiple of 1/100 and ties to the even one; the examples only sum, divide and
  round numbers on which float64 arithmetic is exact too.
\<close>

fun digits :: "nat \<Rightarrow> string" where
  "digits n = (if n < 10 then [char_of (n + 48)] else digits (n div 10) @ [char_of (n mod 10 + 48)])"

definition print_float :: "rat \<Rightarrow> string" where
  "print_float q = (if q < 0 then ''-'' else []) @ digits (nat \<lfloor>\<bar>q\<bar>\<rfloor>) @ ''.0''"

definition round_half_even :: "rat \<Rightarrow> int" where
  "round_half_even q =
     (let f = \<lfloor>q\<rfloor>; d = q - of_int f
      in if d < 1 / 2 then f else if 1 / 2 < d then f + 1 else if even f then f else f + 1)"

definition round2 :: "rat \<Rightarrow> rat" where
  "round2 q = of_int (round_half_even (q * 100)) / 100"

definition exact_arith :: arith where
  "exact_arith = \<lparr>fsum = sum_list, fdiv = (\<lambda>s n. s / of_nat n), fround = round2\<rparr>"

definition all_columns :: "string list" where
  "all_columns = [''Keyword'', ''Search Volume'', ''Keyword Difficulty'', ''Domain'',
     ''Domain Position'', ''Competitor URL'', ''Competitor Position'']"

text \<open>An upload whose only row has a search volume that does not read as a number.\<close>

definition unread_volume_csv :: dataframe where
  "unread_volume_csv = \<lparr>columns = all_columns,
     rows = [[Str ''seo tips'', Str ''unknown'', Num 40, Str ''a.com'', Num 3, Str ''x.com/blog'', Num 5]]\<rparr>"

definition unread_volume_row :: row where
  "unread_volume_row = \<lparr>Keyword = Some ''seo tips'', Search_Volume = Null, Keyword_Difficulty = Num 40,
     Domain = Some ''a.com'', Domain_Position = Num 3, Competitor_URL = Some ''x.com/blog'',
     Competitor_Position = Num 5\<rparr>"

text \<open>An upload without \<^verbatim>\<open>Domain\<close> and \<^verbatim>\<open>Keyword Difficulty\<close>, and one with the six required
  columns and no \<^verbatim>\<open>Competitor Position\<close>.\<close>

definition two_missing_csv :: dataframe where
  "two_missing_csv = \<lparr>columns = [''Keyword'', ''Search Volume'', ''Domain Position'',
       ''Competitor URL'', ''Competitor Position''],
     rows = [[Str ''seo tips'', Num 100, Num 3, Str ''x.com/blog'', Num 1]]\<rparr>"

definition no_competitor_position_csv :: dataframe where
  "no_competitor_position_csv = \<lparr>columns = required_columns,
     rows = [[Str ''seo tips'', Num 100, Num 40, Str ''a.com'', Num 3, Str ''x.com/blog'']]\<rparr>"

text \<open>
  A filtered table: the group of \<^verbatim>\<open>x.com/page\<close> with search volumes 500, 300 and one
  unread, the group of \<^verbatim>\<open>y.com/page\<close> whose only row has no domain, and a row without
  competitor URL.
\<close>

definition kw500 :: row where
  "kw500 = \<lparr>Keyword = Some ''kw500'', Search_Volume = Num 500, Keyword_Difficulty = Num 40,
     Domain = Some ''a.com'', Domain_Position = Num 2, Competitor_URL = Some ''x.com/page'',
     Competitor_Position = Num 4\<rparr>"

definition kw300 :: row where
  "kw300 = \<lparr>Keyword = Some ''kw300'', Search_Volume = Num 300, Keyword_Difficulty = Num 41,
     Domain = Some ''a.com'', Domain_Position = Num 0, Competitor_URL = Some ''x.com/page'',
     Competitor_Position = Num 7\<rparr>"

definition kw_unread :: row where
  "kw_unread = \<lparr>Keyword = Some ''kw0'', Search_Volume = Null, Keyword_Difficulty = Null,
     Domain = Some ''a.com'', Domain_Position = Null, Competitor_URL = Some ''x.com/page'',
     Competitor_Position = Num 1\<rparr>"

definition kw_no_domain :: row where
  "kw_no_domain = \<lparr>Keyword = Some ''kw80'', Search_Volume = Num 80, Keyword_Difficulty = Num 12,
     Domain = None, Domain_Position = Num 3, Competitor_URL = Some ''y.com/page'',
     Competitor_Position = Num 5\<rparr>"

definition kw_no_url :: row where
  "kw_no_url = \<lparr>Keyword = Some ''kw900'', Search_Volume = Num 900, Keyword_Difficulty = Num 5,
     Domain = Some ''a.com'', Domain_Position = Num 1, Competitor_URL = None,
     Competitor_Position = Num 2\<rparr>"

definition filtered_example :: "row list" where
  "filtered_example = [kw_no_url, kw500, kw300, kw_no_domain, kw_unread]"

definition x_page :: final_row where
  "x_page = \<lparr>out_Competitor_URL = ''x.com/page'', out_Topic = Some ''kw500'',
     out_Keywords = ''kw500, kw300, kw0'', out_Search_Volume = 800,
     out_Keyword_Difficulty = Some (81 / 2), out_Domains_Info = ''kw500 (a.com - 2.0)'',
     out_Creation_or_Optimization = ''Optimization''\<rparr>"

definition y_page :: final_row where
  "y_page = \<lparr>out_Competitor_URL = ''y.com/page'', out_Topic = Some ''kw80'',
     out_Keywords = ''kw80'', out_Search_Volume = 80,
     out_Keyword_Difficulty = Some 12, out_Domains_Info = [],
     out_Creation_or_Optimization = ''Creation''\<rparr>"

text \<open>
  What \<^verbatim>\<open>pd.read_csv\<close> returns: distinct column names (it renames repeated ones) and rows
  as long as the header.
\<close>

definition well_formed :: "dataframe \<Rightarrow> bool" where
  "well_formed df \<longleftrightarrow> distinct (columns df) \<and> (\<forall>r \<in> set (rows df). length r = length (columns df))"

text \<open>Two uploads with different columns, and their concatenation.\<close>

definition volumes_csv :: dataframe where
  "volumes_csv = \<lparr>columns = [''Keyword'', ''Search Volume''],
     rows = [[Str ''seo tips'', Num 100], [Str ''seo audit'', Num 70]]\<rparr>"

definition domains_csv :: dataframe where
  "domains_csv = \<lparr>columns = [''Domain'', ''Keyword''],
     rows = [[Str ''a.com'', Str ''seo tools'']]\<rparr>"

definition volumes_domains_merged :: dataframe where
  "volumes_domains_merged = \<lparr>columns = [''Keyword'', ''Search Volume'', ''Domain''],
     rows = [[Str ''seo tips'', Num 100, Null], [Str ''seo audit'', Num 70, Null],
             [Str ''seo tools'', Null, Str ''a.com'']]\<rparr>"

text \<open>A third row for the keyword of the specification's example, on a later domain.\<close>

definition seo_b :: row where
  "seo_b = \<lparr>Keyword = Some ''seo tips'', Search_Volume = Num 100, Keyword_Difficulty = Num 40,
     Domain = Some ''b.com'', Domain_Position = Num 2, Competitor_URL = Some ''x.com/blog'',
     Competitor_Position = Num 1\<rparr>"

text \<open>
  A table with one keyword under two competitor URLs, which the deduplication would not
  leave, and its final table.
\<close>

definition seo_audit :: row where
  "seo_audit = \<lparr>Keyword = Some ''seo audit'', Search_Volume = Num 70, Keyword_Difficulty = Null,
     Domain = Some ''a.com'', Domain_Position = Null, Competitor_URL = Some ''x.com/blog'',
     Competitor_Position = Num 1\<rparr>"

definition x_blog :: final_row where
  "x_blog = \<lparr>out_Competitor_URL = ''x.com/blog'', out_Topic = Some ''seo tips'',
     out_Keywords = ''seo tips, seo audit'', out_Search_Volume = 170,
     out_Keyword_Difficulty = Some 40, out_Domains_Info = ''seo tips (a.com - 3.0)'',
     out_Creation_or_Optimization = ''Optimization''\<rparr>"

definition y_blog :: final_row where
  "y_blog = \<lparr>out_Competitor_URL = ''y.com/blog'', out_Topic = Some ''seo tips'',
     out_Keywords = ''seo tips'', out_Search_Volume = 100,
     out_Keyword_Difficulty = Some 40, out_Domains_Info = ''seo tips (a.com - 3.0)'',
     out_Creation_or_Optimization = ''Optimization''\<rparr>"

text \<open>An upload whose only row has an empty \<^verbatim>\<open>Domain\<close> cell.\<close>

definition no_domain_csv :: dataframe where
  "no_domain_csv = \<lparr>columns = all_columns,
     rows = [[Str ''kw80'', Num 80, Num 12, Null, Num 3, Str ''y.com/page'', Num 5]]\<rparr>"

text \<open>An upload whose only row has a word for its keyword difficulty.\<close>

definition text_difficulty_csv :: dataframe where
  "text_difficulty_csv = \<lparr>columns = all_columns,
     rows = [[Str ''seo tips'', Num 100, Str ''high'', Str ''a.com'', Num 3, Str ''x.com/blog'', Num 5]]\<rparr>"

section \<open>The position filter\<close>

lemma to_numeric_cases: "to_numeric c = Null \<or> (\<exists>q. to_numeric c = Num q)"
  by (cases c) (simp_all add: to_numeric_def)

lemma condition_iff:
  "condition r \<longleftrightarrow>
     (\<exists>a b. Domain_Position r = Num a \<and> Competitor_Position r = Num b \<and> b < a \<and> a \<noteq> 0)"
  by (cases "Domain_Position r"; cases "Competitor_Position r")
     (simp_all add: condition_def cell_gt_def cell_ne_zero_def num_of_def)

lemma coerce_positions_fields:
  "Domain_Position (coerce_positions r) = to_numeric (Domain_Position r)"
  "Competitor_Position (coerce_positions r) = to_numeric (Competitor_Position r)"
  by (simp_all add: coerce_positions_def)

text \<open>
  Claim C2. The filter of lines 81--86 drops a row exactly when both positions are numbers,
  the domain's is greater than the competitor's and it is not 0. Every row it keeps has
  a domain position at most the competitor's, or equal to 0, or one of the two positions
  null; and a row one of whose positions coerces to null is never dropped.
\<close>

theorem filter_soundness:
  "rank_filter T =
     filter (\<lambda>r. \<not> (\<exists>a b. Domain_Position r = Num a \<and> Competitor_Position r = Num b
                          \<and> b < a \<and> a \<noteq> 0))
       (map coerce_positions T)
   \<and> (\<forall>r \<in> set (rank_filter T).
         (\<exists>a b. Domain_Position r = Num a \<and> Competitor_Position r = Num b \<and> a \<le> b)
         \<or> Domain_Position r = Num 0 \<or> Domain_Position r = Null
         \<or> Competitor_Position r = Null)
   \<and> (\<forall>r \<in> set T.
         to_numeric (Domain_Position r) = Null \<or> to_numeric (Competitor_Position r) = Null
         \<longrightarrow> coerce_positions r \<in> set (rank_filter T))"
proof (intro conjI ballI impI)
  show "rank_filter T =
     filter (\<lambda>r. \<not> (\<exists>a b. Domain_Position r = Num a \<and> Competitor_Position r = Num b
                          \<and> b < a \<and> a \<noteq> 0))
       (map coerce_positions T)"
    by (simp add: rank_filter_def condition_iff)
next
  fix r assume "r \<in> set (rank_filter T)"
  then obtain x where r: "r = coerce_positions x" and nc: "\<not> condition r"
    by (auto simp: rank_filter_def)
  from r have "Domain_Position r = Null \<or> (\<exists>q. Domain_Position r = Num q)"
    and "Competitor_Position r = Null \<or> (\<exists>q. Competitor_Position r = Num q)"
    using to_numeric_cases by (simp_all add: coerce_positions_fields)
  with nc show "(\<exists>a b. Domain_Position r = Num a \<and> Competitor_Position r = Num b \<and> a \<le> b)
         \<or> Domain_Position r = Num 0 \<or> Domain_Position r = Null
         \<or> Competitor_Position r = Null"
    by (auto simp: condition_iff not_less)
next
  fix r assume "r \<in> set T"
    and "to_numeric (Domain_Position r) = Null \<or> to_numeric (Competitor_Position r) = Null"
  then show "coerce_positions r \<in> set (rank_filter T)"
    by (auto simp: rank_filter_def condition_iff coerce_positions_fields)
qed

theorem filter_soundness_witness:
  "rank_filter [seo_x, seo_y, seo_unread] = [coerce_positions seo_y, coerce_positions seo_unread]
   \<and> coerce_positions seo_y \<in> set (rank_filter [seo_x, seo_y, seo_unread])
   \<and> Domain_Position (coerce_positions seo_y) = Num 0
   \<and> seo_unread \<in> set [seo_x, seo_y, seo_unread]
   \<and> to_numeric (Domain_Position seo_unread) = Null
   \<and> coerce_positions seo_unread \<in> set (rank_filter [seo_x, seo_y, seo_unread])"
  using filter_soundness [of "[seo_x, seo_y, seo_unread]"]
  by (simp add: seo_x_def seo_y_def seo_unread_def coerce_positions_def to_numeric_def)

section \<open>Scans, groups and the loop\<close>

lemma set_unique_seen: "set (unique_seen seen xs) = set xs - set seen"
  by (induction xs arbitrary: seen) auto

lemma distinct_unique_seen: "distinct (unique_seen seen xs)"
  by (induction xs arbitrary: seen) (auto simp: set_unique_seen)

lemma set_unique: "set (unique xs) = set xs"
  by (simp add: unique_def set_unique_seen)

lemma distinct_unique: "distinct (unique xs)"
  by (simp add: unique_def distinct_unique_seen)

lemma set_drop_seen: "set (drop_seen f seen xs) \<subseteq> set xs"
  by (induction xs arbitrary: seen) auto

lemma image_drop_seen: "f ` set (drop_seen f seen xs) = f ` set xs - set seen"
  by (induction xs arbitrary: seen) auto

lemma distinct_drop_seen: "distinct (map f (drop_seen f seen xs))"
  by (induction xs arbitrary: seen) (auto simp: image_drop_seen)

lemma drop_seen_id:
  "distinct (map f xs) \<Longrightarrow> f ` set xs \<inter> set seen = {} \<Longrightarrow> drop_seen f seen xs = xs"
  by (induction xs arbitrary: seen) auto

lemma drop_duplicates_id: "distinct (map f xs) \<Longrightarrow> drop_duplicates f xs = xs"
  by (simp add: drop_duplicates_def drop_seen_id)

lemma set_group_keys: "set (group_keys f T) = {u. \<exists>r \<in> set T. f r = Some u}"
  by (force simp: group_keys_def set_unique map_filter_def)

lemma distinct_group_keys: "distinct (group_keys f T)"
  by (simp add: group_keys_def distinct_unique)


lemma idxmax_None: "idxmax g = None \<longleftrightarrow> (\<forall>r \<in> set g. num_of (Search_Volume r) = None)"
  by (induction g) (auto split: option.splits)

lemma idxmax_Some:
  "idxmax g = Some b \<Longrightarrow> b \<in> set g \<and> (\<exists>v. num_of (Search_Volume b) = Some v
      \<and> (\<forall>r \<in> set g. \<forall>w. num_of (Search_Volume r) = Some w \<longrightarrow> w \<le> v))"
proof (induction g arbitrary: b)
  case Nil then show ?case by simp
next
  case (Cons r rs)
  show ?case
  proof (cases "num_of (Search_Volume r)")
    case None
    with Cons show ?thesis by auto
  next
    case (Some v)
    show ?thesis
    proof (cases "idxmax rs")
      case None
      with Some Cons.prems have "b = r" by simp
      moreover from None have "\<forall>x \<in> set rs. num_of (Search_Volume x) = None"
        by (simp add: idxmax_None)
      ultimately show ?thesis using Some by auto
    next
      case idx: (Some c)
      from Cons.IH [OF idx] obtain w where c: "c \<in> set rs" "num_of (Search_Volume c) = Some w"
        "\<forall>x \<in> set rs. \<forall>y. num_of (Search_Volume x) = Some y \<longrightarrow> y \<le> w" by auto
      show ?thesis
      proof (cases "w \<le> v")
        case True
        with Some idx c Cons.prems have "b = r" by simp
        with True c Some show ?thesis by fastforce
      next
        case False
        with Some idx c Cons.prems have "b = c" by simp
        with False c Some show ?thesis by fastforce
      qed
    qed
  qed
qed

lemma final_rows_Inr:
  "final_rows shw ar T gs = Inr os \<Longrightarrow>
     length os = length gs \<and> (\<forall>i < length gs. summarise shw ar T (fst (gs ! i)) (snd (gs ! i)) = Inr (os ! i))"
proof (induction gs arbitrary: os)
  case Nil then show ?case by simp
next
  case (Cons p gs)
  obtain u g where p: "p = (u, g)" by (cases p)
  from Cons.prems p obtain o1 os' where o1: "summarise shw ar T u g = Inr o1"
    and os': "final_rows shw ar T gs = Inr os'" and os: "os = o1 # os'"
    by (auto split: sum.splits)
  from Cons.IH [OF os'] have ih: "length os' = length gs"
    "\<forall>i < length gs. summarise shw ar T (fst (gs ! i)) (snd (gs ! i)) = Inr (os' ! i)" by auto
  show ?case
  proof (intro conjI allI impI)
    show "length os = length (p # gs)" using ih os by simp
  next
    fix i assume "i < length (p # gs)"
    then show "summarise shw ar T (fst ((p # gs) ! i)) (snd ((p # gs) ! i)) = Inr (os ! i)"
      using ih o1 os p by (cases i) auto
  qed
qed

lemma final_rows_Inl:
  "(u, g) \<in> set gs \<Longrightarrow> summarise shw ar T u g = Inl e \<Longrightarrow> \<exists>e'. final_rows shw ar T gs = Inl e'"
  by (induction gs) (auto split: sum.splits)

lemma summarise_url: "summarise shw ar T u g = Inr r \<Longrightarrow> out_Competitor_URL r = u"
  by (auto simp: summarise_def Let_def split: option.splits if_splits)

section \<open>A group without any search volume\<close>

lemma groupby_member:
  "r \<in> set T \<Longrightarrow> f r = Some u \<Longrightarrow> (u, filter (\<lambda>x. f x = Some u) T) \<in> set (groupby f T)"
  by (auto simp: groupby_def set_group_keys)

lemma aggregate_Inl:
  "final_rows shw ar T (groupby Competitor_URL T) = Inl e \<Longrightarrow> aggregate shw ar T = Inl e"
  by (simp add: aggregate_def)

text \<open>
  Claim C9. When every row of some competitor URL's group has a null search volume, the
  lookup of the top row (line 115) raises, and the aggregation, hence the run, ends with
  an error and no final table.
\<close>

theorem all_null_group_raises:
  assumes "r \<in> set T" and "Competitor_URL r = Some u"
    and "\<forall>x \<in> set T. Competitor_URL x = Some u \<longrightarrow> num_of (Search_Volume x) = None"
  shows "summarise shw ar T u (filter (\<lambda>x. Competitor_URL x = Some u) T) = Inl IdxmaxAllNull
         \<and> (\<exists>e. aggregate shw ar T = Inl e)"
proof -
  let ?g = "filter (\<lambda>x. Competitor_URL x = Some u) T"
  from assms(3) have "idxmax ?g = None" by (simp add: idxmax_None)
  then have s: "summarise shw ar T u ?g = Inl IdxmaxAllNull" by (simp add: summarise_def)
  from assms(1,2) have "(u, ?g) \<in> set (groupby Competitor_URL T)" by (rule groupby_member)
  from final_rows_Inl [OF this s] obtain e where "final_rows shw ar T (groupby Competitor_URL T) = Inl e" ..
  then have "aggregate shw ar T = Inl e" by (rule aggregate_Inl)
  with s show ?thesis by blast
qed

theorem all_null_group_raises_witness:
  "unread_volume_row \<in> set [unread_volume_row]
   \<and> Competitor_URL unread_volume_row = Some ''x.com/blog''
   \<and> num_of (Search_Volume unread_volume_row) = None
   \<and> aggregate print_float exact_arith [unread_volume_row] = Inl IdxmaxAllNull
   \<and> rank_filter (sort_volume_desc (map coerce_search_volume (deduplicate
        (map (row_of all_columns) (rows unread_volume_csv))))) = [unread_volume_row]
   \<and> main print_float exact_arith [unread_volume_csv] = Inl IdxmaxAllNull"
proof -
  have a: "unread_volume_row \<in> set [unread_volume_row]" by simp
  have b: "Competitor_URL unread_volume_row = Some ''x.com/blog''" by (simp add: unread_volume_row_def)
  have c: "\<forall>x \<in> set [unread_volume_row]. Competitor_URL x = Some ''x.com/blog'' \<longrightarrow> num_of (Search_Volume x) = None"
    by (simp add: unread_volume_row_def num_of_def)
  from all_null_group_raises [OF a b c, where shw = print_float and ar = exact_arith]
  have d: "aggregate print_float exact_arith [unread_volume_row] = Inl IdxmaxAllNull"
    by (auto simp: aggregate_def groupby_def group_keys_def unique_def map_filter_def b split: sum.splits)
  have e: "rank_filter (sort_volume_desc (map coerce_search_volume (deduplicate
        (map (row_of all_columns) (rows unread_volume_csv))))) = [unread_volume_row]"
    by code_simp
  have f: "main print_float exact_arith [unread_volume_csv] = Inl IdxmaxAllNull"
    by code_simp
  from c have c': "num_of (Search_Volume unread_volume_row) = None" by (simp add: b)
  from a b c' d e f show ?thesis by blast
qed

section \<open>One final row per competitor URL\<close>

lemma final_rows_urls:
  assumes "final_rows shw ar T gs = Inr os"
  shows "map out_Competitor_URL os = map fst gs"
proof (rule nth_equalityI)
  from final_rows_Inr [OF assms] have len: "length os = length gs"
    and each: "\<forall>i < length gs. summarise shw ar T (fst (gs ! i)) (snd (gs ! i)) = Inr (os ! i)"
    by auto
  show "length (map out_Competitor_URL os) = length (map fst gs)" using len by simp
  fix i assume "i < length (map out_Competitor_URL os)"
  then have i: "i < length gs" using len by simp
  with each have "summarise shw ar T (fst (gs ! i)) (snd (gs ! i)) = Inr (os ! i)" by simp
  then have "out_Competitor_URL (os ! i) = fst (gs ! i)" by (rule summarise_url)
  then show "map out_Competitor_URL os ! i = map fst gs ! i" using i len by simp
qed

lemma map_fst_groupby: "map fst (groupby f T) = group_keys f T"
  by (simp add: groupby_def comp_def)

lemma aggregate_Inr:
  assumes "aggregate shw ar T = Inr out"
  shows "final_rows shw ar T (groupby Competitor_URL T) = Inr out
         \<and> map out_Competitor_URL out = group_keys Competitor_URL T"
proof -
  from assms obtain fr where fr: "final_rows shw ar T (groupby Competitor_URL T) = Inr fr"
    and out: "out = drop_duplicates out_Competitor_URL fr"
    by (auto simp: aggregate_def split: sum.splits)
  from final_rows_urls [OF fr] have urls: "map out_Competitor_URL fr = group_keys Competitor_URL T"
    by (simp add: map_fst_groupby)
  then have "distinct (map out_Competitor_URL fr)" by (simp add: distinct_group_keys)
  then have "drop_duplicates out_Competitor_URL fr = fr" by (rule drop_duplicates_id)
  with out fr urls show ?thesis by simp
qed

text \<open>
  Claim C3. Whenever the aggregation returns a final table, it has as many rows as the
  filtered table has distinct (non-null) competitor URLs, exactly one per URL, and the
  closing \<^verbatim>\<open>drop_duplicates\<close> on \<^verbatim>\<open>Competitor URL\<close> removes nothing: the final table is
  the list of rows the loop built.
\<close>

theorem aggregation_completeness:
  assumes "aggregate shw ar T = Inr out"
  shows "length out = card {u. \<exists>r \<in> set T. Competitor_URL r = Some u}
         \<and> set (map out_Competitor_URL out) = {u. \<exists>r \<in> set T. Competitor_URL r = Some u}
         \<and> distinct (map out_Competitor_URL out)
         \<and> final_rows shw ar T (groupby Competitor_URL T) = Inr out
         \<and> drop_duplicates out_Competitor_URL out = out"
proof -
  from aggregate_Inr [OF assms] have fr: "final_rows shw ar T (groupby Competitor_URL T) = Inr out"
    and urls: "map out_Competitor_URL out = group_keys Competitor_URL T" by auto
  from urls have d: "distinct (map out_Competitor_URL out)" by (simp add: distinct_group_keys)
  from urls have s: "set (map out_Competitor_URL out) = {u. \<exists>r \<in> set T. Competitor_URL r = Some u}"
    by (simp only: set_group_keys)
  have "length out = length (map out_Competitor_URL out)" by simp
  also have "\<dots> = card (set (map out_Competitor_URL out))" using d by (simp only: distinct_card)
  finally have l: "length out = card {u. \<exists>r \<in> set T. Competitor_URL r = Some u}" using s by simp
  from d have "drop_duplicates out_Competitor_URL out = out" by (rule drop_duplicates_id)
  with l s d fr show ?thesis by blast
qed

theorem aggregation_completeness_witness:
  "aggregate print_float exact_arith filtered_example = Inr [x_page, y_page]
   \<and> length [x_page, y_page] = card {u. \<exists>r \<in> set filtered_example. Competitor_URL r = Some u}
   \<and> distinct (map out_Competitor_URL [x_page, y_page])
   \<and> final_rows print_float exact_arith filtered_example (groupby Competitor_URL filtered_example)
       = Inr [x_page, y_page]"
proof -
  have h: "aggregate print_float exact_arith filtered_example = Inr [x_page, y_page]" by code_simp
  from aggregation_completeness [OF h] h show ?thesis by blast
qed

section \<open>The two validation gates\<close>

text \<open>
  Claim C8. The first gate (lines 44--48) asks for the six required columns, not for
  \<^verbatim>\<open>Competitor Position\<close>; when some are missing the run ends with exactly the missing
  names and no table. The second gate (lines 77--79) asks for \<^verbatim>\<open>Competitor Position\<close>
  only; when the six are present and it is missing the run ends with another error and
  no table. With all seven columns the run reaches the aggregation.
\<close>

theorem validation_gates:
  "required_columns = [''Keyword'', ''Search Volume'', ''Keyword Difficulty'', ''Domain'',
      ''Domain Position'', ''Competitor URL'']
   \<and> ''Competitor Position'' \<notin> set required_columns
   \<and> set (missing_columns cols) = set required_columns - set cols
   \<and> (csv_list \<noteq> [] \<and> missing_columns (columns (concat_frames csv_list)) \<noteq> [] \<longrightarrow>
        main shw ar csv_list = Inl (MissingColumns (missing_columns (columns (concat_frames csv_list)))))
   \<and> (csv_list \<noteq> [] \<and> missing_columns (columns (concat_frames csv_list)) = []
        \<and> ''Competitor Position'' \<notin> set (columns (concat_frames csv_list)) \<longrightarrow>
        main shw ar csv_list = Inl MissingCompetitorPosition)
   \<and> (csv_list \<noteq> [] \<and> missing_columns (columns (concat_frames csv_list)) = []
        \<and> ''Competitor Position'' \<in> set (columns (concat_frames csv_list)) \<longrightarrow>
        main shw ar csv_list =
          aggregate shw ar (rank_filter (sort_volume_desc (map coerce_search_volume (deduplicate
            (map (row_of (columns (concat_frames csv_list))) (rows (concat_frames csv_list))))))))
   \<and> MissingColumns m \<noteq> MissingCompetitorPosition"
proof (intro conjI impI)
  show "required_columns = [''Keyword'', ''Search Volume'', ''Keyword Difficulty'', ''Domain'',
      ''Domain Position'', ''Competitor URL'']"
    by (simp add: required_columns_def)
  show "''Competitor Position'' \<notin> set required_columns"
    by (simp add: required_columns_def)
  show "set (missing_columns cols) = set required_columns - set cols"
    by (auto simp: missing_columns_def)
  show "MissingColumns m \<noteq> MissingCompetitorPosition" by simp
next
  assume "csv_list \<noteq> [] \<and> missing_columns (columns (concat_frames csv_list)) \<noteq> []"
  then show "main shw ar csv_list = Inl (MissingColumns (missing_columns (columns (concat_frames csv_list))))"
    by (simp add: main_def Let_def)
next
  assume "csv_list \<noteq> [] \<and> missing_columns (columns (concat_frames csv_list)) = []
        \<and> ''Competitor Position'' \<notin> set (columns (concat_frames csv_list))"
  then show "main shw ar csv_list = Inl MissingCompetitorPosition"
    by (simp add: main_def Let_def)
next
  assume "csv_list \<noteq> [] \<and> missing_columns (columns (concat_frames csv_list)) = []
        \<and> ''Competitor Position'' \<in> set (columns (concat_frames csv_list))"
  then show "main shw ar csv_list =
          aggregate shw ar (rank_filter (sort_volume_desc (map coerce_search_volume (deduplicate
            (map (row_of (columns (concat_frames csv_list))) (rows (concat_frames csv_list)))))))"
    by (simp add: main_def Let_def)
qed

theorem validation_gates_witness:
  "missing_columns (columns (concat_frames [two_missing_csv])) = [''Keyword Difficulty'', ''Domain'']
   \<and> main print_float exact_arith [two_missing_csv] = Inl (MissingColumns [''Keyword Difficulty'', ''Domain''])
   \<and> missing_columns (columns (concat_frames [no_competitor_position_csv])) = []
   \<and> ''Competitor Position'' \<notin> set (columns (concat_frames [no_competitor_position_csv]))
   \<and> main print_float exact_arith [no_competitor_position_csv] = Inl MissingCompetitorPosition
   \<and> missing_columns (columns (concat_frames [unread_volume_csv])) = []
   \<and> ''Competitor Position'' \<in> set (columns (concat_frames [unread_volume_csv]))
   \<and> main print_float exact_arith [unread_volume_csv] = aggregate print_float exact_arith [unread_volume_row]"
proof -
  have a: "missing_columns (columns (concat_frames [two_missing_csv])) = [''Keyword Difficulty'', ''Domain'']"
    by code_simp
  have b: "missing_columns (columns (concat_frames [no_competitor_position_csv])) = []"
    by code_simp
  have c: "''Competitor Position'' \<notin> set (columns (concat_frames [no_competitor_position_csv]))"
    by code_simp
  have d: "missing_columns (columns (concat_frames [unread_volume_csv])) = []"
    by code_simp
  have e: "''Competitor Position'' \<in> set (columns (concat_frames [unread_volume_csv]))"
    by code_simp
  have f: "rank_filter (sort_volume_desc (map coerce_search_volume (deduplicate
        (map (row_of (columns (concat_frames [unread_volume_csv]))) (rows (concat_frames [unread_volume_csv]))))))
        = [unread_volume_row]"
    by code_simp
  from validation_gates [where csv_list = "[two_missing_csv]" and shw = print_float and ar = exact_arith] a
  have 1: "main print_float exact_arith [two_missing_csv] = Inl (MissingColumns [''Keyword Difficulty'', ''Domain''])"
    by simp
  from validation_gates [where csv_list = "[no_competitor_position_csv]" and shw = print_float and ar = exact_arith] b c
  have 2: "main print_float exact_arith [no_competitor_position_csv] = Inl MissingCompetitorPosition"
    by simp
  from validation_gates [where csv_list = "[unread_volume_csv]" and shw = print_float and ar = exact_arith] d e f
  have 3: "main print_float exact_arith [unread_volume_csv] = aggregate print_float exact_arith [unread_volume_row]"
    by simp
  from a b c d e 1 2 3 show ?thesis by blast
qed

section \<open>The merged table\<close>

lemma cell_at_nth:
  "distinct cols \<Longrightarrow> length r = length cols \<Longrightarrow> i < length cols \<Longrightarrow> cell_at cols r (cols ! i) = r ! i"
  by (simp add: cell_at_def map_of_zip_nth)

lemma cell_at_notin: "c \<notin> set cols \<Longrightarrow> cell_at cols r c = Null"
proof -
  assume "c \<notin> set cols"
  then have "c \<notin> fst ` set (zip cols r)" by (auto dest: set_zip_leftD)
  then have "map_of (zip cols r) c = None" by (simp add: map_of_eq_None_iff)
  then show ?thesis by (simp add: cell_at_def)
qed

lemma cell_at_map:
  "cell_at cols (map f cols) c = (if c \<in> set cols then f c else Null)"
  by (simp add: cell_at_def map_of_zip_map)

lemma columns_concat_frames: "columns (concat_frames dfs) = unique (concat (map columns dfs))"
  by (simp add: concat_frames_def Let_def)

lemma rows_concat_frames:
  "rows (concat_frames dfs) = concat (map (reindex (columns (concat_frames dfs))) dfs)"
  by (simp add: concat_frames_def Let_def)

lemma length_reindex: "length (reindex cols df) = length (rows df)"
  by (simp add: reindex_def)

lemma length_concat_reindex:
  "length (concat (map (reindex cols) dfs)) = sum_list (map (\<lambda>df. length (rows df)) dfs)"
  by (induction dfs) (simp_all add: length_reindex)

text \<open>
  Claim C7. The merged table has as many rows as the inputs together, and the union of
  their columns. Its rows are the inputs' rows, input after input and in each input's
  order, each laid out on the merged columns: under a column of its own input a row
  keeps its cell, under any other column it holds a null.
\<close>

theorem merge_completeness:
  assumes "\<forall>df \<in> set dfs. well_formed df"
  shows "length (rows (concat_frames dfs)) = sum_list (map (\<lambda>df. length (rows df)) dfs)
    \<and> set (columns (concat_frames dfs)) = (\<Union>df \<in> set dfs. set (columns df))
    \<and> distinct (columns (concat_frames dfs))
    \<and> rows (concat_frames dfs) = concat (map (reindex (columns (concat_frames dfs))) dfs)
    \<and> (\<forall>df \<in> set dfs.
          length (reindex (columns (concat_frames dfs)) df) = length (rows df)
          \<and> (\<forall>j < length (rows df).
                length (reindex (columns (concat_frames dfs)) df ! j) = length (columns (concat_frames dfs))
                \<and> (\<forall>i < length (columns df).
                      cell_at (columns (concat_frames dfs)) (reindex (columns (concat_frames dfs)) df ! j)
                        (columns df ! i) = rows df ! j ! i)
                \<and> (\<forall>c. c \<notin> set (columns df) \<longrightarrow>
                      cell_at (columns (concat_frames dfs)) (reindex (columns (concat_frames dfs)) df ! j) c
                        = Null)))"
proof -
  let ?cols = "columns (concat_frames dfs)"
  have len: "length (rows (concat_frames dfs)) = sum_list (map (\<lambda>df. length (rows df)) dfs)"
    by (simp only: rows_concat_frames length_concat_reindex)
  have cols: "set ?cols = (\<Union>df \<in> set dfs. set (columns df))"
    by (simp add: columns_concat_frames set_unique)
  have dist: "distinct ?cols"
    by (simp add: columns_concat_frames distinct_unique)
  have each: "length (reindex ?cols df) = length (rows df)
          \<and> (\<forall>j < length (rows df).
                length (reindex ?cols df ! j) = length ?cols
                \<and> (\<forall>i < length (columns df).
                      cell_at ?cols (reindex ?cols df ! j) (columns df ! i) = rows df ! j ! i)
                \<and> (\<forall>c. c \<notin> set (columns df) \<longrightarrow> cell_at ?cols (reindex ?cols df ! j) c = Null))"
    if df: "df \<in> set dfs" for df
  proof (intro conjI allI impI)
    show "length (reindex ?cols df) = length (rows df)" by (rule length_reindex)
  next
    fix j assume j: "j < length (rows df)"
    then show "length (reindex ?cols df ! j) = length ?cols" by (simp add: reindex_def)
  next
    fix j i assume j: "j < length (rows df)" and i: "i < length (columns df)"
    from df assms have wf: "well_formed df" by simp
    from j have rj: "rows df ! j \<in> set (rows df)" by simp
    with wf have lr: "length (rows df ! j) = length (columns df)" and d: "distinct (columns df)"
      by (simp_all add: well_formed_def)
    from i have "columns df ! i \<in> set (columns df)" by simp
    with df cols have "columns df ! i \<in> set ?cols" by blast
    then have "cell_at ?cols (reindex ?cols df ! j) (columns df ! i)
        = cell_at (columns df) (rows df ! j) (columns df ! i)"
      using j by (simp add: reindex_def cell_at_map)
    also have "\<dots> = rows df ! j ! i" using d lr i by (rule cell_at_nth)
    finally show "cell_at ?cols (reindex ?cols df ! j) (columns df ! i) = rows df ! j ! i" .
  next
    fix j c assume j: "j < length (rows df)" and c: "c \<notin> set (columns df)"
    then show "cell_at ?cols (reindex ?cols df ! j) c = Null"
      by (simp add: reindex_def cell_at_map cell_at_notin)
  qed
  show ?thesis
  proof (intro conjI ballI)
    show "length (rows (concat_frames dfs)) = sum_list (map (\<lambda>df. length (rows df)) dfs)" by (rule len)
    show "set ?cols = (\<Union>df \<in> set dfs. set (columns df))" by (rule cols)
    show "distinct ?cols" by (rule dist)
    show "rows (concat_frames dfs) = concat (map (reindex ?cols) dfs)" by (rule rows_concat_frames)
  next
    fix df assume "df \<in> set dfs"
    from each [OF this] show "length (reindex ?cols df) = length (rows df)" by (rule conjunct1)
  next
    fix df assume "df \<in> set dfs"
    from each [OF this] show "\<forall>j < length (rows df).
                length (reindex ?cols df ! j) = length ?cols
                \<and> (\<forall>i < length (columns df).
                      cell_at ?cols (reindex ?cols df ! j) (columns df ! i) = rows df ! j ! i)
                \<and> (\<forall>c. c \<notin> set (columns df) \<longrightarrow> cell_at ?cols (reindex ?cols df ! j) c = Null)"
      by (rule conjunct2)
  qed
qed

theorem merge_completeness_witness:
  "well_formed volumes_csv \<and> well_formed domains_csv
   \<and> concat_frames [volumes_csv, domains_csv] = volumes_domains_merged
   \<and> length (rows volumes_domains_merged) = 3
   \<and> set (columns volumes_domains_merged) = set (columns volumes_csv) \<union> set (columns domains_csv)"
proof -
  have a: "well_formed volumes_csv" by (simp add: well_formed_def volumes_csv_def)
  have b: "well_formed domains_csv" by (simp add: well_formed_def domains_csv_def)
  have c: "concat_frames [volumes_csv, domains_csv] = volumes_domains_merged" by code_simp
  from a b have "\<forall>df \<in> set [volumes_csv, domains_csv]. well_formed df" by simp
  from merge_completeness [OF this]
  have "length (rows (concat_frames [volumes_csv, domains_csv]))
      = sum_list (map (\<lambda>df. length (rows df)) [volumes_csv, domains_csv])"
    and "set (columns (concat_frames [volumes_csv, domains_csv]))
      = (\<Union>df \<in> set [volumes_csv, domains_csv]. set (columns df))"
    by blast+
  then have "length (rows volumes_domains_merged) = 3"
    and "set (columns volumes_domains_merged) = set (columns volumes_csv) \<union> set (columns domains_csv)"
    unfolding c by (simp_all add: volumes_csv_def domains_csv_def)
  with a b c show ?thesis by blast
qed

section \<open>The row kept for a keyword\<close>

lemma drop_seen_first:
  "r \<in> set (drop_seen f seen xs) \<Longrightarrow> find (\<lambda>y. f y = f r) xs = Some r"
proof (induction xs arbitrary: seen)
  case Nil then show ?case by simp
next
  case (Cons x xs)
  show ?case
  proof (cases "f x \<in> set seen")
    case True
    with Cons.prems have r: "r \<in> set (drop_seen f seen xs)" by simp
    then have "f r \<in> f ` set (drop_seen f seen xs)" by (rule imageI)
    then have "f r \<notin> set seen" by (simp add: image_drop_seen)
    with True have "f x \<noteq> f r" by auto
    with Cons.IH [OF r] show ?thesis by simp
  next
    case False
    with Cons.prems have "r = x \<or> r \<in> set (drop_seen f (f x # seen) xs)" by auto
    then show ?thesis
    proof
      assume "r = x" then show ?thesis by simp
    next
      assume r: "r \<in> set (drop_seen f (f x # seen) xs)"
      then have "f r \<in> f ` set (drop_seen f (f x # seen) xs)" by (rule imageI)
      then have "f r \<notin> set (f x # seen)" by (simp only: image_drop_seen) blast
      then have "f x \<noteq> f r" by auto
      with Cons.IH [OF r] show ?thesis by simp
    qed
  qed
qed

lemma sorted_drop_seen: "sorted (map k xs) \<Longrightarrow> sorted (map k (drop_seen f seen xs))"
proof (induction xs arbitrary: seen)
  case Nil then show ?case by simp
next
  case (Cons x xs)
  then have s: "sorted (map k xs)" and le: "\<forall>y \<in> set xs. k x \<le> k y" by auto
  have "\<forall>y \<in> set (drop_seen f (f x # seen) xs). k x \<le> k y"
    using le set_drop_seen [of f "f x # seen" xs] by blast
  with Cons.IH [OF s] show ?case by auto
qed

lemma find_sorted_least:
  "sorted (map k xs) \<Longrightarrow> find P xs = Some r \<Longrightarrow> x \<in> set xs \<Longrightarrow> P x \<Longrightarrow> k r \<le> k x"
  by (induction xs) (auto split: if_splits)

lemma find_refine:
  "find P xs = Some r \<Longrightarrow> (\<And>y. Q y \<Longrightarrow> P y) \<Longrightarrow> Q r \<Longrightarrow> find Q xs = Some r"
  by (induction xs) (auto split: if_splits)

lemma find_filter_eq: "find P xs = (case filter P xs of [] \<Rightarrow> None | y # _ \<Rightarrow> Some y)"
  by (induction xs) auto

lemma na_last_inject: "na_last a = na_last b \<Longrightarrow> a = b"
  by (cases a; cases b) (simp_all add: na_last_def)

lemma key_eq_keyword: "domain_keyword_key x = domain_keyword_key r \<Longrightarrow> Keyword x = Keyword r"
  by (simp add: domain_keyword_key_def na_last_inject)

lemma sort_domain_keyword_stable:
  "filter (\<lambda>x. domain_keyword_key x = k) (sort_domain_keyword T) = filter (\<lambda>x. domain_keyword_key x = k) T"
  by (simp add: sort_domain_keyword_def sort_key_stable)

text \<open>
  Claim C1. The deduplication sorts the table by (Domain, Keyword), nulls last, with a
  stable sort, and keeps the first row of every keyword in that order. So the result is in
  sorted order with one row per keyword of the table; the row kept for a keyword has the
  least (Domain, Keyword) key among the rows of that keyword, and is the first row of
  the original table with that key.
\<close>

theorem dedup_keeps_smallest:
  "deduplicate T = drop_duplicates Keyword (sort_domain_keyword T)
   \<and> sorted (map domain_keyword_key (sort_domain_keyword T))
   \<and> set (sort_domain_keyword T) = set T
   \<and> (\<forall>k. filter (\<lambda>x. domain_keyword_key x = k) (sort_domain_keyword T)
           = filter (\<lambda>x. domain_keyword_key x = k) T)
   \<and> sorted (map domain_keyword_key (deduplicate T))
   \<and> distinct (map Keyword (deduplicate T))
   \<and> Keyword ` set (deduplicate T) = Keyword ` set T
   \<and> (\<forall>r \<in> set (deduplicate T).
         r \<in> set T
         \<and> find (\<lambda>x. Keyword x = Keyword r) (sort_domain_keyword T) = Some r
         \<and> (\<forall>x \<in> set T. Keyword x = Keyword r \<longrightarrow> domain_keyword_key r \<le> domain_keyword_key x)
         \<and> find (\<lambda>x. domain_keyword_key x = domain_keyword_key r) T = Some r)"
proof -
  let ?S = "sort_domain_keyword T"
  have srt: "sorted (map domain_keyword_key ?S)" by (simp add: sort_domain_keyword_def)
  have st: "set ?S = set T" by (simp add: sort_domain_keyword_def)
  have dd: "deduplicate T = drop_seen Keyword [] ?S" by (simp add: deduplicate_def drop_duplicates_def)
  have each: "r \<in> set T
         \<and> find (\<lambda>x. Keyword x = Keyword r) ?S = Some r
         \<and> (\<forall>x \<in> set T. Keyword x = Keyword r \<longrightarrow> domain_keyword_key r \<le> domain_keyword_key x)
         \<and> find (\<lambda>x. domain_keyword_key x = domain_keyword_key r) T = Some r"
    if r: "r \<in> set (deduplicate T)" for r
  proof (intro conjI ballI impI)
    from r dd set_drop_seen [of Keyword "[]" ?S] st show "r \<in> set T" by auto
    from r dd show first: "find (\<lambda>x. Keyword x = Keyword r) ?S = Some r"
      by (simp add: drop_seen_first)
    have "find (\<lambda>x. domain_keyword_key x = domain_keyword_key r) ?S = Some r"
    proof (rule find_refine [OF first])
      fix y assume "domain_keyword_key y = domain_keyword_key r"
      then show "Keyword y = Keyword r" by (rule key_eq_keyword)
    next
      show "domain_keyword_key r = domain_keyword_key r" by (rule refl)
    qed
    then show "find (\<lambda>x. domain_keyword_key x = domain_keyword_key r) T = Some r"
      by (simp only: find_filter_eq sort_domain_keyword_stable)
  next
    fix x assume "x \<in> set T" and k: "Keyword x = Keyword r"
    then have x: "x \<in> set ?S" using st by simp
    from r dd have "find (\<lambda>x. Keyword x = Keyword r) ?S = Some r" by (simp add: drop_seen_first)
    from find_sorted_least [OF srt this x k] show "domain_keyword_key r \<le> domain_keyword_key x" .
  qed
  show ?thesis
  proof (intro conjI allI ballI)
    show "deduplicate T = drop_duplicates Keyword ?S" by (simp add: deduplicate_def)
    show "sorted (map domain_keyword_key ?S)" by (rule srt)
    show "set ?S = set T" by (rule st)
    show "filter (\<lambda>x. domain_keyword_key x = k) ?S = filter (\<lambda>x. domain_keyword_key x = k) T" for k
      by (rule sort_domain_keyword_stable)
    show "sorted (map domain_keyword_key (deduplicate T))"
      unfolding dd using srt by (rule sorted_drop_seen)
    show "distinct (map Keyword (deduplicate T))" unfolding dd by (rule distinct_drop_seen)
    show "Keyword ` set (deduplicate T) = Keyword ` set T" unfolding dd by (simp add: image_drop_seen st)
  next
    fix r assume "r \<in> set (deduplicate T)"
    from each [OF this] show "r \<in> set T" by blast
  next
    fix r assume "r \<in> set (deduplicate T)"
    from each [OF this] show "find (\<lambda>x. Keyword x = Keyword r) ?S = Some r" by blast
  next
    fix r x assume "r \<in> set (deduplicate T)" and "x \<in> set T"
    from each [OF this(1)] this(2)
    show "Keyword x = Keyword r \<longrightarrow> domain_keyword_key r \<le> domain_keyword_key x" by blast
  next
    fix r assume "r \<in> set (deduplicate T)"
    from each [OF this] show "find (\<lambda>x. domain_keyword_key x = domain_keyword_key r) T = Some r" by blast
  qed
qed

theorem dedup_keeps_smallest_witness:
  "deduplicate [seo_b, seo_x, seo_y, seo_unread] = [seo_unread, seo_x]
   \<and> seo_x \<in> set (deduplicate [seo_b, seo_x, seo_y, seo_unread])
   \<and> seo_b \<in> set [seo_b, seo_x, seo_y, seo_unread]
   \<and> Keyword seo_b = Keyword seo_x
   \<and> domain_keyword_key seo_x \<le> domain_keyword_key seo_b
   \<and> domain_keyword_key seo_y = domain_keyword_key seo_x
   \<and> find (\<lambda>x. domain_keyword_key x = domain_keyword_key seo_x) [seo_b, seo_x, seo_y, seo_unread]
       = Some seo_x"
proof -
  let ?T = "[seo_b, seo_x, seo_y, seo_unread]"
  have d: "deduplicate ?T = [seo_unread, seo_x]" by code_simp
  then have m: "seo_x \<in> set (deduplicate ?T)" by simp
  have b: "seo_b \<in> set ?T" by simp
  have k: "Keyword seo_b = Keyword seo_x" by (simp add: seo_b_def seo_x_def)
  have y: "domain_keyword_key seo_y = domain_keyword_key seo_x" by code_simp
  from dedup_keeps_smallest [of ?T]
  have "\<forall>r \<in> set (deduplicate ?T).
         r \<in> set ?T
         \<and> find (\<lambda>x. Keyword x = Keyword r) (sort_domain_keyword ?T) = Some r
         \<and> (\<forall>x \<in> set ?T. Keyword x = Keyword r \<longrightarrow> domain_keyword_key r \<le> domain_keyword_key x)
         \<and> find (\<lambda>x. domain_keyword_key x = domain_keyword_key r) ?T = Some r"
    by (elim conjE)
  from bspec [OF this m]
  have both: "(\<forall>x \<in> set ?T. Keyword x = Keyword seo_x \<longrightarrow> domain_keyword_key seo_x \<le> domain_keyword_key x)
    \<and> find (\<lambda>x. domain_keyword_key x = domain_keyword_key seo_x) ?T = Some seo_x"
    by (elim conjE, intro conjI)
  from both have le: "\<forall>x \<in> set ?T. Keyword x = Keyword seo_x \<longrightarrow> domain_keyword_key seo_x \<le> domain_keyword_key x"
    by (rule conjunct1)
  from both have f: "find (\<lambda>x. domain_keyword_key x = domain_keyword_key seo_x) ?T = Some seo_x"
    by (rule conjunct2)
  from bspec [OF le b] k have "domain_keyword_key seo_x \<le> domain_keyword_key seo_b" by (rule mp)
  with d m b k y f show ?thesis by (intro conjI)
qed

section \<open>The fields of a final row\<close>

lemma filter_by_distinct_key:
  "distinct (map f xs) \<Longrightarrow> r \<in> set xs \<Longrightarrow> filter (\<lambda>x. f x = f r) xs = [r]"
proof (induction xs)
  case Nil then show ?case by simp
next
  case (Cons a xs)
  show ?case
  proof (cases "r = a")
    case True
    from Cons.prems(1) have "f a \<notin> f ` set xs" by simp
    then have "\<forall>x \<in> set xs. f x \<noteq> f a" by (metis imageI)
    then have "filter (\<lambda>x. f x = f a) xs = []" by (simp add: filter_empty_conv)
    with True show ?thesis by simp
  next
    case False
    with Cons.prems have r: "r \<in> set xs" and d: "distinct (map f xs)" by auto
    from Cons.prems(1) have "f a \<notin> f ` set xs" by simp
    with r have "f a \<noteq> f r" by (metis imageI)
    with Cons.IH [OF d r] show ?thesis by simp
  qed
qed

lemma aggregate_row:
  assumes "aggregate shw ar T = Inr out" and "r \<in> set out"
  shows "summarise shw ar T (out_Competitor_URL r)
           (filter (\<lambda>x. Competitor_URL x = Some (out_Competitor_URL r)) T) = Inr r"
proof -
  let ?gs = "groupby Competitor_URL T"
  from aggregate_Inr [OF assms(1)] have fr: "final_rows shw ar T ?gs = Inr out" by simp
  from final_rows_Inr [OF fr] have len: "length out = length ?gs"
    and each: "\<forall>i < length ?gs. summarise shw ar T (fst (?gs ! i)) (snd (?gs ! i)) = Inr (out ! i)"
    by auto
  from assms(2) obtain i where i: "i < length out" and r: "r = out ! i"
    by (auto simp: in_set_conv_nth)
  from i len have ig: "i < length ?gs" by simp
  then have ik: "i < length (group_keys Competitor_URL T)" by (simp add: groupby_def)
  from each ig r have s: "summarise shw ar T (fst (?gs ! i)) (snd (?gs ! i)) = Inr r" by simp
  then have u: "out_Competitor_URL r = fst (?gs ! i)" by (rule summarise_url)
  from ik have "snd (?gs ! i) = filter (\<lambda>x. Competitor_URL x = Some (fst (?gs ! i))) T"
    by (simp add: groupby_def)
  with s u show ?thesis by simp
qed

lemma fill_zero_sum: "sum_list (map fill_zero vs) = sum_list (List.map_filter (\<lambda>v. v) vs)"
proof (induction vs)
  case Nil then show ?case by (simp add: map_filter_simps)
next
  case (Cons v vs)
  then show ?case by (cases v) (simp_all add: fill_zero_def map_filter_simps)
qed


lemma round_half_even_near: "\<bar>of_int (round_half_even q) - q\<bar> \<le> 1 / 2"
proof -
  have "of_int \<lfloor>q\<rfloor> \<le> q" and "q < of_int \<lfloor>q\<rfloor> + 1" by linarith+
  then show ?thesis by (auto simp: round_half_even_def Let_def)
qed

lemma round2_near: "\<bar>round2 q - q\<bar> \<le> 1 / 200"
proof -
  have "\<bar>of_int (round_half_even (q * 100)) - q * 100\<bar> \<le> 1 / 2" by (rule round_half_even_near)
  then show ?thesis by (simp add: round2_def abs_le_iff field_simps)
qed

lemma round2_hundredths: "\<exists>n :: int. round2 q = of_int n / 100"
  by (auto simp: round2_def)

section \<open>Sum and mean of a group\<close>

text \<open>A string among the difficulties of a group ends the run at line 126.\<close>

lemma summarise_mean_raises:
  assumes "idxmax g \<noteq> None" and "all_text (map Keyword (sort_volume_desc g)) \<noteq> None"
    and "x \<in> set g" and "is_text (Keyword_Difficulty x)"
  shows "summarise shw ar T u g = Inl MeanTypeError"
  using assms by (auto simp: summarise_def split: option.splits)

lemma main_mean_raises: "main print_float exact_arith [text_difficulty_csv] = Inl MeanTypeError"
  by code_simp

lemma summarise_fields:
  assumes "summarise shw ar T u g = Inr r"
  shows "\<exists>top_row kws. idxmax g = Some top_row
      \<and> all_text (map Keyword (sort_volume_desc g)) = Some kws
      \<and> (\<forall>x \<in> set g. \<not> is_text (Keyword_Difficulty x))
      \<and> out_Topic r = Keyword top_row
      \<and> out_Keywords r = join '', '' kws
      \<and> out_Search_Volume r = nansum ar (map (num_of \<circ> Search_Volume) g)
      \<and> out_Keyword_Difficulty r
            = map_option (fround ar) (nanmean ar (map (num_of \<circ> Keyword_Difficulty) g))
      \<and> out_Domains_Info r = get_domain_info shw top_row T
      \<and> out_Creation_or_Optimization r =
            (if get_domain_info shw top_row T \<noteq> [] then ''Optimization'' else ''Creation'')"
  using assms by (auto simp: summarise_def Let_def split: option.splits if_splits)



section \<open>The cross-reference into the filtered table\<close>

lemma text_eq_iff: "text_eq a b \<longleftrightarrow> a \<noteq> None \<and> a = b"
  by (cases a; cases b) (simp_all add: text_eq_def)

lemma cell_gt_zero_iff: "cell_gt c (Num 0) \<longleftrightarrow> (\<exists>p. c = Num p \<and> 0 < p)"
  by (cases c) (simp_all add: cell_gt_def num_of_def)

lemma domain_ranked_eq:
  "domain_ranked top_row T =
     filter (\<lambda>x. Keyword x \<noteq> None \<and> Keyword x = Keyword top_row
                 \<and> Domain x \<noteq> None \<and> Domain x = Domain top_row
                 \<and> (\<exists>p. Domain_Position x = Num p \<and> 0 < p)) T"
  by (simp add: domain_ranked_def text_eq_iff cell_gt_zero_iff conj_ac)

lemma get_domain_info_join:
  "get_domain_info shw top_row T = join '', '' (map (format_info shw) (domain_ranked top_row T))"
  by (simp add: get_domain_info_def)

lemma format_info_text:
  "Keyword x = Some k \<Longrightarrow> Domain x = Some d \<Longrightarrow> Domain_Position x = Num p \<Longrightarrow>
     format_info shw x = k @ '' ('' @ d @ '' - '' @ shw p @ '')''"
  by (simp add: format_info_def text_str_def cell_str_def)

lemma format_info_nonempty: "format_info shw x \<noteq> []"
  by (simp add: format_info_def)

lemma join_nonempty: "x \<noteq> [] \<Longrightarrow> join sep (x # xs) \<noteq> []"
  by (cases xs) simp_all

lemma get_domain_info_empty:
  "get_domain_info shw top_row T = [] \<longleftrightarrow> domain_ranked top_row T = []"
proof (cases "domain_ranked top_row T")
  case Nil then show ?thesis by (simp add: get_domain_info_def)
next
  case (Cons x xs)
  then show ?thesis by (simp add: get_domain_info_def join_nonempty format_info_nonempty)
qed

lemma idxmax_top:
  assumes "idxmax g = Some top_row"
  shows "top_row \<in> set g
    \<and> (\<exists>v. Search_Volume top_row = Num v \<and> (\<forall>x \<in> set g. \<forall>w. Search_Volume x = Num w \<longrightarrow> w \<le> v))"
proof -
  from idxmax_Some [OF assms] obtain v where m: "top_row \<in> set g"
    and v: "num_of (Search_Volume top_row) = Some v"
    and mx: "\<forall>x \<in> set g. \<forall>w. num_of (Search_Volume x) = Some w \<longrightarrow> w \<le> v" by blast
  from v have "Search_Volume top_row = Num v" by (cases "Search_Volume top_row") (simp_all add: num_of_def)
  moreover from mx have "\<forall>x \<in> set g. \<forall>w. Search_Volume x = Num w \<longrightarrow> w \<le> v"
    by (simp add: num_of_def)
  ultimately show ?thesis using m by blast
qed

text \<open>
  Claim C4. For every final row, with \<open>top_row\<close> the first row of largest search volume in the
  row's group: the topic is the keyword of \<open>top_row\<close>; Domain's Info joins with a comma and a
  space the entries \<^verbatim>\<open>Keyword (Domain - Domain Position)\<close> of the rows of the whole
  filtered table that have the keyword of \<open>top_row\<close>, the domain of \<open>top_row\<close> and a domain
  position above 0 (a null never matches), and is empty exactly when there is none; and
  the last field is \<^verbatim>\<open>Optimization\<close> when Domain's Info is not empty, \<^verbatim>\<open>Creation\<close> when it is.
\<close>

theorem domain_info_cross_reference:
  fixes T :: "row list" and r :: final_row and G :: "row list"
  defines "G \<equiv> filter (\<lambda>x. Competitor_URL x = Some (out_Competitor_URL r)) T"
  assumes "aggregate shw ar T = Inr out" and "r \<in> set out"
  shows "\<exists>top_row. idxmax G = Some top_row \<and> top_row \<in> set G
      \<and> (\<exists>v. Search_Volume top_row = Num v \<and> (\<forall>x \<in> set G. \<forall>w. Search_Volume x = Num w \<longrightarrow> w \<le> v))
      \<and> out_Topic r = Keyword top_row
      \<and> out_Domains_Info r = join '', '' (map (format_info shw)
            (filter (\<lambda>x. Keyword x \<noteq> None \<and> Keyword x = Keyword top_row
                         \<and> Domain x \<noteq> None \<and> Domain x = Domain top_row
                         \<and> (\<exists>p. Domain_Position x = Num p \<and> 0 < p)) T))
      \<and> (\<forall>x k d p. Keyword x = Some k \<and> Domain x = Some d \<and> Domain_Position x = Num p \<longrightarrow>
            format_info shw x = k @ '' ('' @ d @ '' - '' @ shw p @ '')'')
      \<and> (out_Domains_Info r = [] \<longleftrightarrow>
            filter (\<lambda>x. Keyword x \<noteq> None \<and> Keyword x = Keyword top_row
                         \<and> Domain x \<noteq> None \<and> Domain x = Domain top_row
                         \<and> (\<exists>p. Domain_Position x = Num p \<and> 0 < p)) T = [])
      \<and> (out_Creation_or_Optimization r = ''Optimization'' \<longleftrightarrow> out_Domains_Info r \<noteq> [])
      \<and> (out_Creation_or_Optimization r = ''Creation'' \<longleftrightarrow> out_Domains_Info r = [])"
proof -
  from aggregate_row [OF assms(2,3)] have "summarise shw ar T (out_Competitor_URL r) G = Inr r"
    by (simp add: G_def)
  from summarise_fields [OF this] obtain top_row where top_row: "idxmax G = Some top_row"
    and topic: "out_Topic r = Keyword top_row"
    and info: "out_Domains_Info r = get_domain_info shw top_row T"
    and co: "out_Creation_or_Optimization r =
            (if get_domain_info shw top_row T \<noteq> [] then ''Optimization'' else ''Creation'')"
    by blast
  note mx = idxmax_top [OF top_row]
  have 1: "out_Domains_Info r = join '', '' (map (format_info shw)
            (filter (\<lambda>x. Keyword x \<noteq> None \<and> Keyword x = Keyword top_row
                         \<and> Domain x \<noteq> None \<and> Domain x = Domain top_row
                         \<and> (\<exists>p. Domain_Position x = Num p \<and> 0 < p)) T))"
    by (simp only: info get_domain_info_join domain_ranked_eq)
  have 2: "\<forall>x k d p. Keyword x = Some k \<and> Domain x = Some d \<and> Domain_Position x = Num p \<longrightarrow>
            format_info shw x = k @ '' ('' @ d @ '' - '' @ shw p @ '')''"
    by (simp add: format_info_text)
  have 3: "out_Domains_Info r = [] \<longleftrightarrow>
            filter (\<lambda>x. Keyword x \<noteq> None \<and> Keyword x = Keyword top_row
                         \<and> Domain x \<noteq> None \<and> Domain x = Domain top_row
                         \<and> (\<exists>p. Domain_Position x = Num p \<and> 0 < p)) T = []"
    by (simp only: info get_domain_info_empty domain_ranked_eq)
  have 4: "out_Creation_or_Optimization r = ''Optimization'' \<longleftrightarrow> out_Domains_Info r \<noteq> []"
    by (simp add: co info)
  have 5: "out_Creation_or_Optimization r = ''Creation'' \<longleftrightarrow> out_Domains_Info r = []"
    by (simp add: co info)
  from top_row mx topic 1 2 3 4 5 show ?thesis by (intro exI [of _ top_row] conjI) (elim conjE, assumption)+
qed

theorem domain_info_cross_reference_witness:
  "aggregate print_float exact_arith [seo_x, seo_y, seo_audit] = Inr [x_blog, y_blog]
   \<and> y_blog \<in> set [x_blog, y_blog]
   \<and> filter (\<lambda>x. Competitor_URL x = Some (out_Competitor_URL y_blog)) [seo_x, seo_y, seo_audit] = [seo_y]
   \<and> idxmax [seo_y] = Some seo_y
   \<and> filter (\<lambda>x. Keyword x \<noteq> None \<and> Keyword x = Keyword seo_y
                   \<and> Domain x \<noteq> None \<and> Domain x = Domain seo_y
                   \<and> (\<exists>p. Domain_Position x = Num p \<and> 0 < p)) [seo_x, seo_y, seo_audit] = [seo_x]
   \<and> out_Topic y_blog = Keyword seo_y
   \<and> out_Domains_Info y_blog = join '', '' [format_info print_float seo_x]
   \<and> format_info print_float seo_x = ''seo tips (a.com - 3.0)''
   \<and> out_Creation_or_Optimization y_blog = ''Optimization''"
proof -
  let ?T = "[seo_x, seo_y, seo_audit]"
  have h: "aggregate print_float exact_arith ?T = Inr [x_blog, y_blog]" by code_simp
  have m: "y_blog \<in> set [x_blog, y_blog]" by simp
  have g: "filter (\<lambda>x. Competitor_URL x = Some (out_Competitor_URL y_blog)) ?T = [seo_y]" by code_simp
  have i: "idxmax [seo_y] = Some seo_y" by code_simp
  have f: "filter (\<lambda>x. Keyword x \<noteq> None \<and> Keyword x = Keyword seo_y
                   \<and> Domain x \<noteq> None \<and> Domain x = Domain seo_y
                   \<and> (\<exists>p. Domain_Position x = Num p \<and> 0 < p)) ?T = [seo_x]"
    by (simp add: seo_x_def seo_y_def seo_audit_def)
  have p: "format_info print_float seo_x = ''seo tips (a.com - 3.0)''" by code_simp
  from domain_info_cross_reference [OF h m, unfolded g i]
  have t: "out_Topic y_blog = Keyword seo_y"
    and d: "out_Domains_Info y_blog = join '', '' (map (format_info print_float)
            (filter (\<lambda>x. Keyword x \<noteq> None \<and> Keyword x = Keyword seo_y
                   \<and> Domain x \<noteq> None \<and> Domain x = Domain seo_y
                   \<and> (\<exists>p. Domain_Position x = Num p \<and> 0 < p)) ?T))"
    and c: "out_Creation_or_Optimization y_blog = ''Optimization'' \<longleftrightarrow> out_Domains_Info y_blog \<noteq> []"
    by auto
  from d have d': "out_Domains_Info y_blog = join '', '' [format_info print_float seo_x]"
    by (simp only: f list.map)
  then have "out_Domains_Info y_blog \<noteq> []" by (simp add: p)
  with c have c': "out_Creation_or_Optimization y_blog = ''Optimization''" by simp
  from h m g i f t d' p c' show ?thesis by (intro conjI)
qed

section \<open>One row per keyword: the cross-reference finds the top row only\<close>

lemma all_text_Some: "all_text vs = Some ss \<Longrightarrow> None \<notin> set vs"
proof (induction vs arbitrary: ss)
  case Nil then show ?case by simp
next
  case (Cons v vs)
  then show ?case by (cases v) (auto split: option.splits)
qed

lemma summarise_keywords:
  assumes "summarise shw ar T u g = Inr r" and "x \<in> set g"
  shows "Keyword x \<noteq> None"
proof -
  from summarise_fields [OF assms(1)] obtain kws where
    "all_text (map Keyword (sort_volume_desc g)) = Some kws" by blast
  then have "None \<notin> set (map Keyword (sort_volume_desc g))" by (rule all_text_Some)
  then have "None \<notin> Keyword ` set g" by (simp add: sort_volume_desc_def)
  with assms(2) show ?thesis by (metis imageI)
qed

lemma domain_ranked_distinct:
  assumes "distinct (map Keyword T)" and "top_row \<in> set T" and "Keyword top_row \<noteq> None"
  shows "domain_ranked top_row T =
     (if Domain top_row \<noteq> None \<and> (\<exists>p. Domain_Position top_row = Num p \<and> 0 < p) then [top_row] else [])"
proof -
  let ?R = "\<lambda>x. Keyword x \<noteq> None \<and> Domain x \<noteq> None \<and> Domain x = Domain top_row
                 \<and> (\<exists>p. Domain_Position x = Num p \<and> 0 < p)"
  have "domain_ranked top_row T = filter (\<lambda>x. Keyword x = Keyword top_row \<and> ?R x) T"
    unfolding domain_ranked_eq by (rule filter_cong) auto
  also have "\<dots> = filter ?R (filter (\<lambda>x. Keyword x = Keyword top_row) T)"
    by (simp only: filter_filter)
  also have "filter (\<lambda>x. Keyword x = Keyword top_row) T = [top_row]"
    using assms(1,2) by (rule filter_by_distinct_key)
  finally show ?thesis using assms(3) by simp
qed

text \<open>On any table with at most one row per keyword, whatever the order of its rows.\<close>

lemma one_row_per_keyword_top_row:
  fixes T :: "row list" and r :: final_row and G :: "row list"
  defines "G \<equiv> filter (\<lambda>x. Competitor_URL x = Some (out_Competitor_URL r)) T"
  assumes "aggregate shw ar T = Inr out" and "r \<in> set out" and "distinct (map Keyword T)"
  shows "\<exists>top_row. idxmax G = Some top_row \<and> top_row \<in> set G
      \<and> set (domain_ranked top_row T) \<subseteq> {top_row}
      \<and> (out_Domains_Info r = format_info shw top_row \<or> out_Domains_Info r = [])
      \<and> (out_Domains_Info r = format_info shw top_row \<longleftrightarrow>
            (\<exists>p. Domain_Position top_row = Num p \<and> 0 < p) \<and> Domain top_row \<noteq> None)
      \<and> (out_Creation_or_Optimization r = ''Optimization'' \<longleftrightarrow>
            (\<exists>p. Domain_Position top_row = Num p \<and> 0 < p) \<and> Domain top_row \<noteq> None)
      \<and> (out_Creation_or_Optimization r = ''Creation'' \<longleftrightarrow>
            \<not> ((\<exists>p. Domain_Position top_row = Num p \<and> 0 < p) \<and> Domain top_row \<noteq> None))"
proof -
  from aggregate_row [OF assms(2,3)] have s: "summarise shw ar T (out_Competitor_URL r) G = Inr r"
    by (simp add: G_def)
  from summarise_fields [OF s] obtain top_row where top: "idxmax G = Some top_row"
    and info: "out_Domains_Info r = get_domain_info shw top_row T"
    and co: "out_Creation_or_Optimization r =
            (if get_domain_info shw top_row T \<noteq> [] then ''Optimization'' else ''Creation'')"
    by blast
  from idxmax_top [OF top] have g: "top_row \<in> set G" by blast
  then have t: "top_row \<in> set T" by (simp add: G_def)
  from summarise_keywords [OF s g] have k: "Keyword top_row \<noteq> None" .
  note dr = domain_ranked_distinct [OF assms(4) t k]
  show ?thesis
  proof (cases "(\<exists>p. Domain_Position top_row = Num p \<and> 0 < p) \<and> Domain top_row \<noteq> None")
    case True
    with dr have d: "domain_ranked top_row T = [top_row]" by simp
    then have i: "out_Domains_Info r = format_info shw top_row"
      by (simp add: info get_domain_info_def)
    then have "out_Creation_or_Optimization r = ''Optimization''"
      using co info by (simp add: format_info_nonempty)
    with True d i top g show ?thesis by (intro exI [of _ top_row]) simp
  next
    case False
    with dr have d: "domain_ranked top_row T = []" by auto
    then have i: "out_Domains_Info r = []" by (simp add: info get_domain_info_def)
    then have "out_Creation_or_Optimization r = ''Creation''"
      using co info by simp
    with False d i top g show ?thesis
      using format_info_nonempty [of shw top_row] by (intro exI [of _ top_row]) simp
  qed
qed

text \<open>
  The filtered table of every run has at most one row per keyword: the deduplication
  leaves one, and the coercions, the sort and the filter of lines 64--86 change no keyword
  and repeat no row.
\<close>

lemma distinct_map_insort_key:
  "distinct (map f (insort_key k x xs)) \<longleftrightarrow> f x \<notin> f ` set xs \<and> distinct (map f xs)"
  by (induction xs) (auto simp: set_insort_key)

lemma distinct_map_sort_key: "distinct (map f (sort_key k xs)) \<longleftrightarrow> distinct (map f xs)"
  by (induction xs) (simp_all add: distinct_map_insort_key)

lemma Keyword_coerce_search_volume: "Keyword (coerce_search_volume r) = Keyword r"
  by (simp add: coerce_search_volume_def)

lemma Keyword_coerce_positions: "Keyword (coerce_positions r) = Keyword r"
  by (simp add: coerce_positions_def)

lemma filtered_table_distinct:
  "distinct (map Keyword
     (rank_filter (sort_volume_desc (map coerce_search_volume (deduplicate T0)))))"
proof -
  have "distinct (map Keyword (deduplicate T0))"
    by (simp add: deduplicate_def drop_duplicates_def distinct_drop_seen)
  then have "distinct (map Keyword (map coerce_search_volume (deduplicate T0)))"
    by (simp add: comp_def Keyword_coerce_search_volume)
  then have "distinct (map Keyword (sort_volume_desc (map coerce_search_volume (deduplicate T0))))"
    by (simp only: sort_volume_desc_def distinct_map_sort_key)
  then have "distinct (map Keyword
      (map coerce_positions (sort_volume_desc (map coerce_search_volume (deduplicate T0)))))"
    by (simp add: comp_def Keyword_coerce_positions)
  then show ?thesis
    unfolding rank_filter_def by (rule distinct_map_filter)
qed

text \<open>
  Claim C10, as amended. The deduplication leaves at most one row per keyword in the
  filtered table of every run, so the cross-reference of a final row matches at most the
  group's own top row: Domain's Info is the one entry of that row when it has a domain
  position above 0 and a non-null domain, and the empty string otherwise; the last field
  is \<^verbatim>\<open>Optimization\<close> exactly when the top row has a domain position above 0 and a
  non-null domain.
\<close>

theorem info_matches_only_top_row:
  fixes T0 :: "row list" and T :: "row list" and r :: final_row and G :: "row list"
  defines "T \<equiv> rank_filter (sort_volume_desc (map coerce_search_volume (deduplicate T0)))"
    and "G \<equiv> filter (\<lambda>x. Competitor_URL x = Some (out_Competitor_URL r))
                 (rank_filter (sort_volume_desc (map coerce_search_volume (deduplicate T0))))"
  assumes "aggregate shw ar T = Inr out" and "r \<in> set out"
  shows "distinct (map Keyword T)
      \<and> (\<exists>top_row. idxmax G = Some top_row \<and> top_row \<in> set G
          \<and> set (domain_ranked top_row T) \<subseteq> {top_row}
          \<and> (out_Domains_Info r = format_info shw top_row \<or> out_Domains_Info r = [])
          \<and> (out_Domains_Info r = format_info shw top_row \<longleftrightarrow>
                (\<exists>p. Domain_Position top_row = Num p \<and> 0 < p) \<and> Domain top_row \<noteq> None)
          \<and> (out_Creation_or_Optimization r = ''Optimization'' \<longleftrightarrow>
                (\<exists>p. Domain_Position top_row = Num p \<and> 0 < p) \<and> Domain top_row \<noteq> None)
          \<and> (out_Creation_or_Optimization r = ''Creation'' \<longleftrightarrow>
                \<not> ((\<exists>p. Domain_Position top_row = Num p \<and> 0 < p) \<and> Domain top_row \<noteq> None)))"
proof
  show d: "distinct (map Keyword T)" unfolding T_def by (rule filtered_table_distinct)
  from one_row_per_keyword_top_row [OF assms(3,4) d]
  show "\<exists>top_row. idxmax G = Some top_row \<and> top_row \<in> set G
          \<and> set (domain_ranked top_row T) \<subseteq> {top_row}
          \<and> (out_Domains_Info r = format_info shw top_row \<or> out_Domains_Info r = [])
          \<and> (out_Domains_Info r = format_info shw top_row \<longleftrightarrow>
                (\<exists>p. Domain_Position top_row = Num p \<and> 0 < p) \<and> Domain top_row \<noteq> None)
          \<and> (out_Creation_or_Optimization r = ''Optimization'' \<longleftrightarrow>
                (\<exists>p. Domain_Position top_row = Num p \<and> 0 < p) \<and> Domain top_row \<noteq> None)
          \<and> (out_Creation_or_Optimization r = ''Creation'' \<longleftrightarrow>
                \<not> ((\<exists>p. Domain_Position top_row = Num p \<and> 0 < p) \<and> Domain top_row \<noteq> None))"
    unfolding G_def T_def .
qed

theorem info_matches_only_top_row_witness:
  "rank_filter (sort_volume_desc (map coerce_search_volume (deduplicate filtered_example)))
     = filtered_example
   \<and> aggregate print_float exact_arith filtered_example = Inr [x_page, y_page]
   \<and> x_page \<in> set [x_page, y_page]
   \<and> distinct (map Keyword filtered_example)
   \<and> idxmax (filter (\<lambda>x. Competitor_URL x = Some (out_Competitor_URL x_page)) filtered_example)
       = Some kw500
   \<and> Domain_Position kw500 = Num 2 \<and> Domain kw500 = Some ''a.com''
   \<and> out_Domains_Info x_page = format_info print_float kw500
   \<and> out_Creation_or_Optimization x_page = ''Optimization''"
proof -
  have f: "rank_filter (sort_volume_desc (map coerce_search_volume (deduplicate filtered_example)))
     = filtered_example" by code_simp
  have h: "aggregate print_float exact_arith filtered_example = Inr [x_page, y_page]" by code_simp
  then have h': "aggregate print_float exact_arith
      (rank_filter (sort_volume_desc (map coerce_search_volume (deduplicate filtered_example))))
      = Inr [x_page, y_page]" by (simp only: f)
  have m: "x_page \<in> set [x_page, y_page]" by simp
  have i: "idxmax (filter (\<lambda>x. Competitor_URL x = Some (out_Competitor_URL x_page)) filtered_example)
       = Some kw500" by code_simp
  have p: "Domain_Position kw500 = Num 2" and dm: "Domain kw500 = Some ''a.com''"
    by (simp_all add: kw500_def)
  note th = info_matches_only_top_row [OF h' m, unfolded f i]
  from th have d: "distinct (map Keyword filtered_example)" by (rule conjunct1)
  from th have "(out_Domains_Info x_page = format_info print_float kw500 \<longleftrightarrow>
            (\<exists>p. Domain_Position kw500 = Num p \<and> 0 < p) \<and> Domain kw500 \<noteq> None)
      \<and> (out_Creation_or_Optimization x_page = ''Optimization'' \<longleftrightarrow>
            (\<exists>p. Domain_Position kw500 = Num p \<and> 0 < p) \<and> Domain kw500 \<noteq> None)"
    by auto
  then have "out_Domains_Info x_page = format_info print_float kw500
      \<and> out_Creation_or_Optimization x_page = ''Optimization''"
    by (simp add: p dm)
  with f h m d i p dm show ?thesis by (intro conjI) (elim conjE, assumption)+
qed

text \<open>
  Claim C10 as stated fails on an upload whose only row has an empty \<^verbatim>\<open>Domain\<close> cell and
  domain position 3: the comparison of line 99 is false on a null, Domain's Info is empty
  and the row is labelled \<^verbatim>\<open>Creation\<close>, although the top row's domain position is above 0.
\<close>

theorem optimization_iff_position_counterexample:
  "rank_filter (sort_volume_desc (map coerce_search_volume (deduplicate
       (map (row_of all_columns) (rows no_domain_csv))))) = [kw_no_domain]
   \<and> main print_float exact_arith [no_domain_csv] = Inr [y_page]
   \<and> distinct (map Keyword [kw_no_domain])
   \<and> aggregate print_float exact_arith [kw_no_domain] = Inr [y_page]
   \<and> idxmax (filter (\<lambda>x. Competitor_URL x = Some (out_Competitor_URL y_page)) [kw_no_domain])
       = Some kw_no_domain
   \<and> Domain_Position kw_no_domain = Num 3
   \<and> out_Domains_Info y_page = []
   \<and> out_Creation_or_Optimization y_page = ''Creation''
   \<and> \<not> (out_Creation_or_Optimization y_page = ''Optimization'' \<longleftrightarrow>
          (\<exists>p. Domain_Position kw_no_domain = Num p \<and> 0 < p))"
proof -
  have 1: "rank_filter (sort_volume_desc (map coerce_search_volume (deduplicate
       (map (row_of all_columns) (rows no_domain_csv))))) = [kw_no_domain]" by code_simp
  have 2: "main print_float exact_arith [no_domain_csv] = Inr [y_page]" by code_simp
  have 3: "distinct (map Keyword [kw_no_domain])" by simp
  have 4: "aggregate print_float exact_arith [kw_no_domain] = Inr [y_page]" by code_simp
  have 5: "idxmax (filter (\<lambda>x. Competitor_URL x = Some (out_Competitor_URL y_page)) [kw_no_domain])
       = Some kw_no_domain" by code_simp
  have 6: "Domain_Position kw_no_domain = Num 3" by (simp add: kw_no_domain_def)
  have 7: "out_Domains_Info y_page = []" by (simp add: y_page_def)
  have 8: "out_Creation_or_Optimization y_page = ''Creation''" by (simp add: y_page_def)
  have 9: "\<not> (out_Creation_or_Optimization y_page = ''Optimization'' \<longleftrightarrow>
          (\<exists>p. Domain_Position kw_no_domain = Num p \<and> 0 < p))"
    by (simp add: 6 8)
  from 1 2 3 4 5 6 7 8 9 show ?thesis by (intro conjI)
qed

section \<open>The aggregation on its own final table\<close>





lemma summarise_frame_all_columns:
  assumes "''Search Volume'' \<in> set cols" and "''Keyword'' \<in> set cols"
    and "''Keyword Difficulty'' \<in> set cols" and "''Domain'' \<in> set cols"
    and "''Domain Position'' \<in> set cols"
  shows "summarise_frame shw ar cols T u g = summarise shw ar T u g"
  using assms by (auto simp: summarise_frame_def summarise_def)

lemma final_rows_frame_all_columns:
  assumes "''Search Volume'' \<in> set cols" and "''Keyword'' \<in> set cols"
    and "''Keyword Difficulty'' \<in> set cols" and "''Domain'' \<in> set cols"
    and "''Domain Position'' \<in> set cols"
  shows "final_rows_frame shw ar cols T gs = final_rows shw ar T gs"
  by (induction gs) (auto simp: summarise_frame_all_columns [OF assms] split: sum.splits)

lemma aggregate_frame_all_columns:
  assumes "''Competitor URL'' \<in> set (columns df)"
    and "''Search Volume'' \<in> set (columns df)" and "''Keyword'' \<in> set (columns df)"
    and "''Keyword Difficulty'' \<in> set (columns df)" and "''Domain'' \<in> set (columns df)"
    and "''Domain Position'' \<in> set (columns df)"
  shows "aggregate_frame shw ar df = aggregate shw ar (map (row_of (columns df)) (rows df))"
  using assms(1) by (simp add: aggregate_frame_def aggregate_def Let_def
      final_rows_frame_all_columns [OF assms(2-6)])




lemma final_rows_frame_first:
  "summarise_frame shw ar cols T u g = Inl e \<Longrightarrow> final_rows_frame shw ar cols T ((u, g) # gs) = Inl e"
  by simp







end
